theory Spec2Isabelle
  imports Complex_Main
begin

section \<open>JavaScript values as the client sees them\<close>

text \<open>
  Both source files treat every payload as \<^verbatim>\<open>any\<close>: whatever the upstream service sends
  after JSON decoding. A value is therefore one of the JSON shapes, plus \<^verbatim>\<open>undefined\<close>,
  which is what reading an absent property yields. A finite number is a rational; the
  code only ever observes of a number whether it is zero (truthiness) and that it is a
  number (\<^verbatim>\<open>parseFloat\<close>). An object is its list of own properties; the first binding
  of a key is the one a read finds.
\<close>

datatype jsval =
    Undefined
  | JNull
  | JBool bool
  | JNum rat
  | JStr string
  | JArr "jsval list"
  | JObj "(string \<times> jsval) list"

text \<open>What a JavaScript exception thrown inside a callback is, as far as the code can tell.\<close>

datatype excecao = TypeError | LeafletError

text \<open>\<^verbatim>\<open>!v\<close> is false exactly for the truthy values.\<close>

fun truthy :: "jsval \<Rightarrow> bool" where
  "truthy Undefined = False"
| "truthy JNull = False"
| "truthy (JBool b) = b"
| "truthy (JNum n) = (n \<noteq> 0)"
| "truthy (JStr s) = (s \<noteq> [])"
| "truthy (JArr xs) = True"
| "truthy (JObj kvs) = True"

text \<open>Reading a property of \<^verbatim>\<open>null\<close> or \<^verbatim>\<open>undefined\<close> throws a TypeError.\<close>

fun nullish :: "jsval \<Rightarrow> bool" where
  "nullish Undefined = True"
| "nullish JNull = True"
| "nullish v = False"

text \<open>
  \<^verbatim>\<open>v.k\<close> for a value that is not nullish. Of the properties that arrays and strings
  inherit, the code reads only \<^verbatim>\<open>length\<close>.
\<close>

fun campo :: "jsval \<Rightarrow> string \<Rightarrow> jsval" where
  "campo (JObj kvs) k = (case map_of kvs k of None \<Rightarrow> Undefined | Some v \<Rightarrow> v)"
| "campo (JArr xs) k = (if k = ''length'' then JNum (of_nat (length xs)) else Undefined)"
| "campo (JStr s) k = (if k = ''length'' then JNum (of_nat (length s)) else Undefined)"
| "campo v k = Undefined"

text \<open>\<^verbatim>\<open>a || b\<close>\<close>

definition ou :: "jsval \<Rightarrow> jsval \<Rightarrow> jsval" where
  "ou a b = (if truthy a then a else b)"

text \<open>\<^verbatim>\<open>Array.isArray(v)\<close> and the elements of an array.\<close>

fun isArray :: "jsval \<Rightarrow> bool" where
  "isArray (JArr xs) = True"
| "isArray v = False"

fun elementos :: "jsval \<Rightarrow> jsval list" where
  "elementos (JArr xs) = xs"
| "elementos v = []"

text \<open>
  Converting a value to a string (a template literal \<^verbatim>\<open>${v}\<close>, \<^verbatim>\<open>encodeURIComponent(v)\<close>,
  \<^verbatim>\<open>parseFloat(v)\<close>) throws a TypeError exactly when no string can be had from it. A
  decoded payload holds no function, so an object with an own property \<^verbatim>\<open>toString\<close> has
  none to call (the inherited \<^verbatim>\<open>valueOf\<close> returns the object itself), and an array, which
  joins the strings of its elements, throws when one of them does.
\<close>

fun toStringLanca :: "jsval \<Rightarrow> bool" where
  "toStringLanca (JObj kvs) = (''toString'' \<in> set (map fst kvs))"
| "toStringLanca (JArr xs) = list_ex toStringLanca xs"
| "toStringLanca v = False"

text \<open>
  \<^verbatim>\<open>linha.cl || linha.c || linha.codigo || linha.codigoLinha\<close>, the expression both files use
  to find the code of a line. It throws when \<^verbatim>\<open>linha\<close> is nullish.
\<close>

definition codigoLinha :: "jsval \<Rightarrow> excecao + jsval" where
  "codigoLinha linha =
     (if nullish linha then Inl TypeError
      else Inr (ou (campo linha ''cl'')
                 (ou (campo linha ''c'')
                   (ou (campo linha ''codigo'') (campo linha ''codigoLinha'')))))"

subsection \<open>String helpers of the language\<close>

text \<open>The white space that \<^verbatim>\<open>String.prototype.trim\<close> and \<^verbatim>\<open>parseFloat\<close> skip (one-byte characters).\<close>

definition espaco :: "char \<Rightarrow> bool" where
  "espaco c = (c \<in> set [CHR 0x09, CHR 0x0A, CHR 0x0B, CHR 0x0C, CHR 0x0D, CHR 0x20, CHR 0xA0])"

definition trim :: "string \<Rightarrow> string" where
  "trim s = rev (dropWhile espaco (rev (dropWhile espaco s)))"

definition digito :: "char \<Rightarrow> bool" where
  "digito c = (c \<in> set ''0123456789'')"

definition sem_sinal :: "string \<Rightarrow> string" where
  "sem_sinal s =
     (case s of [] \<Rightarrow> []
      | c # r \<Rightarrow> if c = CHR ''+'' \<or> c = CHR ''-'' then r else s)"

text \<open>
  \<^verbatim>\<open>parseFloat\<close> of a string is a number exactly when, after leading white space and an
  optional sign, a decimal literal begins: \<^verbatim>\<open>Infinity\<close>, a digit, or a dot followed by a
  digit.
\<close>

definition comeca_numero :: "string \<Rightarrow> bool" where
  "comeca_numero s =
     (let r = sem_sinal (dropWhile espaco s) in
      take 8 r = ''Infinity'' \<or>
      (case r of [] \<Rightarrow> False
       | c # t \<Rightarrow> digito c \<or> (c = CHR ''.'' \<and> (case t of [] \<Rightarrow> False | d # u \<Rightarrow> digito d))))"

text \<open>
  Whether the string of a value (one that has a string) begins no numeral: a number
  prints as a numeral, \<^verbatim>\<open>undefined\<close>, \<^verbatim>\<open>null\<close>, booleans and objects print as words that are
  not numerals, and an array prints its elements separated by commas, so that only its
  first element decides.
\<close>

fun semNumeral :: "jsval \<Rightarrow> bool" where
  "semNumeral (JNum n) = False"
| "semNumeral (JStr s) = (\<not> comeca_numero s)"
| "semNumeral (JArr []) = True"
| "semNumeral (JArr (x # xs)) = semNumeral x"
| "semNumeral v = True"

text \<open>
  \<^verbatim>\<open>parseFloat(v)\<close> converts its argument to a string, which may throw, and reads a
  numeral at its start. Of the number it returns the code observes, through \<^verbatim>\<open>isNaN\<close>,
  only whether it is one.
\<close>

datatype numero = NaN | Numero

definition parseFloat :: "jsval \<Rightarrow> excecao + numero" where
  "parseFloat v =
     (if toStringLanca v then Inl TypeError
      else Inr (if semNumeral v then NaN else Numero))"

definition isNaN :: "numero \<Rightarrow> bool" where
  "isNaN n = (n = NaN)"

section \<open>The API client (app.service.ts)\<close>

text \<open>
  A request is an endpoint with its parameter; the URL text is the base URL, the path and
  the encoded parameter. Strings here are sequences of one-byte characters, on which
  \<^verbatim>\<open>encodeURIComponent\<close> always returns (it throws only on a lone UTF-16 surrogate, which
  such a string cannot hold). The upstream service answers a request with a payload or
  fails (\<open>Inl\<close>): an \<^verbatim>\<open>HttpErrorResponse\<close> carrying a status, or an error without one.
\<close>

datatype pedido = Login | Linhas string | PosicaoLinha jsval | Status

datatype erro = HttpErrorResponse nat | ErroJs excecao

type_synonym upstream = "pedido \<Rightarrow> erro + jsval"

text \<open>
  An observable built by the client is cold and settles once: subscribing to it against
  an upstream service issues requests, in order, and then delivers either one value to
  the \<^verbatim>\<open>next\<close> callback (\<open>Inr\<close>) or an error to the \<^verbatim>\<open>error\<close> callback (\<open>Inl\<close>).
\<close>

type_synonym 'a observable = "upstream \<Rightarrow> pedido list \<times> (erro + 'a)"

definition http_get :: "pedido \<Rightarrow> jsval observable" where
  "http_get p = (\<lambda>up. ([p], up p))"

definition of_rx :: "'a \<Rightarrow> 'a observable" where
  "of_rx v = (\<lambda>up. ([], Inr v))"

definition catchError :: "(erro \<Rightarrow> 'a observable) \<Rightarrow> 'a observable \<Rightarrow> 'a observable" where
  "catchError h obs =
     (\<lambda>up. case obs up of
        (ps, Inr v) \<Rightarrow> (ps, Inr v)
      | (ps, Inl e) \<Rightarrow> (case h e up of (qs, r) \<Rightarrow> (ps @ qs, r)))"



definition login :: "jsval observable" where
  "login = catchError (\<lambda>erro. of_rx (JBool False)) (http_get Login)"

definition buscarLinhas :: "string \<Rightarrow> jsval observable" where
  "buscarLinhas termo = catchError (\<lambda>erro. of_rx (JArr [])) (http_get (Linhas termo))"

text \<open>
  \<^verbatim>\<open>buscarPosicoes\<close> builds the URL, with \<^verbatim>\<open>encodeURIComponent(codigoLinha)\<close>, before it
  builds the observable: for a code that has no string the call itself throws.
\<close>

definition buscarPosicoes :: "jsval \<Rightarrow> excecao + jsval observable" where
  "buscarPosicoes codigo =
     (if toStringLanca codigo then Inl TypeError
      else Inr (catchError (\<lambda>erro. of_rx (JObj [(''hr'', JStr ''''), (''vs'', JArr [])]))
                  (http_get (PosicaoLinha codigo))))"


subsection \<open>buscarTodasPosicoes\<close>

text \<open>
  The array this operation emits holds what \<^verbatim>\<open>linhas.map\<close> returned for each line. An
  element of an emitted array is either a plain record or an observable object that
  nobody has subscribed to yet.
\<close>

datatype elemento = Registro jsval | Requisicao "jsval observable"






section \<open>The view controller (AppComponent)\<close>

text \<open>
  A marker is a Leaflet object: it has an identity of its own (two markers built from the
  same vehicle are different objects) and remembers the vehicle and the line it was built
  from. The map holds layers: the tile layer added by \<^verbatim>\<open>criarMapa\<close> and the markers.
\<close>

datatype marcador = Marcador nat jsval jsval

datatype camada = TileLayer | MarkerLayer marcador

text \<open>The dialogs the component opens with \<^verbatim>\<open>alert\<close>, by the message they carry.\<close>

datatype alerta =
    DigiteTermo
  | AguardeMapa
  | DadosVazios string
  | FormatoInesperado
  | NenhumaLinha string
  | Encontrados nat nat string
  | NenhumAtivo nat string
  | ErroAoBuscar "nat option"

text \<open>The values \<^verbatim>\<open>ultimoErro\<close> takes.\<close>

datatype ultimo_erro =
    SemErro
  | ErroCriarMapa
  | ConexaoFalhou
  | Endpoint404
  | Servidor500
  | ErroHttp "nat option"

text \<open>
  What the component does to the world outside its fields, in the order it happens:
  dialogs, calls on the map, and HTTP requests issued through the API client.
\<close>

datatype efeito =
    Alert alerta
  | AddTo marcador
  | RemoveLayer marcador
  | FitBounds "marcador list"
  | Http pedido

text \<open>
  The variables that one call of \<^verbatim>\<open>processarLinhas\<close> declares and that the callbacks of
  its position requests share. \<open>pendentes\<close> are the subscriptions of this call that have
  not settled yet, each with the line and the code it was made for; \<open>finais\<close> counts the
  calls of \<^verbatim>\<open>mostrarResultadoFinal\<close> made from the callbacks of this call.
\<close>

record busca =
  totalOnibus :: nat
  linhasProcessadas :: nat
  totalLinhas :: nat
  termo :: string
  pendentes :: "(jsval \<times> jsval) list"
  finais :: nat

text \<open>
  The fields of the component (\<open>leaflet\<close> is whether \<^verbatim>\<open>this.L\<close> is loaded, \<open>mapa\<close> is
  \<open>None\<close> while \<^verbatim>\<open>this.mapa\<close> is undefined), followed by what surrounds it: the calls of
  \<^verbatim>\<open>processarLinhas\<close> so far, the line searches in flight (by their term), the effects
  so far, and the identity the next marker object gets.
\<close>

record componente =
  termoBusca :: string
  carregando :: bool
  mapaCarregado :: bool
  totalBuscas :: nat
  ultimoErro :: ultimo_erro
  marcadoresOnibus :: "marcador list"
  mapa :: "camada list option"
  leaflet :: bool
  buscas :: "busca list"
  pendLinhas :: "string list"
  efeitos :: "efeito list"
  prox :: nat

definition inicial :: componente where
  "inicial =
     \<lparr>termoBusca = [], carregando = False, mapaCarregado = False, totalBuscas = 0,
      ultimoErro = SemErro, marcadoresOnibus = [], mapa = None, leaflet = False,
      buscas = [], pendLinhas = [], efeitos = [], prox = 0\<rparr>"

text \<open>\<^verbatim>\<open>ngOnInit\<close>: the dynamic import of Leaflet succeeds or not.\<close>

definition ngOnInit :: "bool \<Rightarrow> componente \<Rightarrow> componente" where
  "ngOnInit carregou st = (if carregou then st\<lparr>leaflet := True\<rparr> else st)"

text \<open>
  \<^verbatim>\<open>criarMapa\<close>: \<open>ok\<close> is whether the Leaflet calls that build the map return; when one
  throws, the \<^verbatim>\<open>catch\<close> block records the error.
\<close>

definition criarMapa :: "bool \<Rightarrow> componente \<Rightarrow> componente" where
  "criarMapa ok st =
     (if \<not> leaflet st then st
      else if ok then st\<lparr>mapa := Some [TileLayer], mapaCarregado := True\<rparr>
      else st\<lparr>ultimoErro := ErroCriarMapa\<rparr>)"

definition removeLayer :: "marcador \<Rightarrow> camada list \<Rightarrow> camada list" where
  "removeLayer m cs = filter (\<lambda>c. c \<noteq> MarkerLayer m) cs"

definition limparMarcadores :: "componente \<Rightarrow> componente" where
  "limparMarcadores st =
     (case mapa st of
        None \<Rightarrow> st
      | Some cs \<Rightarrow>
          st\<lparr>mapa := Some (fold removeLayer (marcadoresOnibus st) cs),
             efeitos := efeitos st @ map RemoveLayer (marcadoresOnibus st),
             marcadoresOnibus := []\<rparr>)"

definition removerMarcadores :: "componente \<Rightarrow> componente" where
  "removerMarcadores st = limparMarcadores st"

text \<open>
  The template of the popup reads \<^verbatim>\<open>linha.c\<close>, \<^verbatim>\<open>linha.sl\<close> and \<^verbatim>\<open>onibus.ta\<close>, each with
  \<^verbatim>\<open>|| 'N/A'\<close>, and converts them to strings (\<^verbatim>\<open>onibus.a\<close> is only tested). It throws
  when the line has no properties or one of the three has no string.
\<close>

definition popupHtml_lanca :: "jsval \<Rightarrow> jsval \<Rightarrow> bool" where
  "popupHtml_lanca onibus linha =
     (nullish linha \<or>
      toStringLanca (ou (campo linha ''c'') (JStr ''N/A'')) \<or>
      toStringLanca (ou (campo linha ''sl'') (JStr ''N/A'')) \<or>
      toStringLanca (ou (campo onibus ''ta'') (JStr ''N/A'')))"

text \<open>
  A method that may throw returns the exception, if any, with the state reached when it
  was thrown: what was assigned before stays assigned.
\<close>

definition adicionarMarcador :: "jsval \<Rightarrow> jsval \<Rightarrow> componente \<Rightarrow> excecao option \<times> componente" where
  "adicionarMarcador onibus linha st =
     (case mapa st of
        None \<Rightarrow> (None, st)
      | Some cs \<Rightarrow>
          if \<not> leaflet st then (None, st)
          else if nullish onibus then (Some TypeError, st)
          else
            (case parseFloat (campo onibus ''py'') of
               Inl x \<Rightarrow> (Some x, st)
             | Inr lat \<Rightarrow>
                 (case parseFloat (campo onibus ''px'') of
                    Inl x \<Rightarrow> (Some x, st)
                  | Inr lng \<Rightarrow>
                      if isNaN lat \<or> isNaN lng then (None, st)
                      else if popupHtml_lanca onibus linha then (Some TypeError, st)
                      else
                        (let marcador = Marcador (prox st) onibus linha in
                         (None, st\<lparr>mapa := Some (cs @ [MarkerLayer marcador]),
                                   efeitos := efeitos st @ [AddTo marcador],
                                   marcadoresOnibus := marcadoresOnibus st @ [marcador],
                                   prox := Suc (prox st)\<rparr>)))))"

text \<open>
  \<^verbatim>\<open>mostrarResultadoFinal\<close>. Building the feature group needs \<^verbatim>\<open>this.L\<close>, fitting needs
  \<^verbatim>\<open>this.mapa\<close>. Leaflet (not part of this repository) gives a group without layers
  bounds that are not valid, and padding those throws before \<^verbatim>\<open>fitBounds\<close> is reached.
\<close>

definition mostrarResultadoFinal :: "nat \<Rightarrow> nat \<Rightarrow> string \<Rightarrow> componente \<Rightarrow> excecao option \<times> componente" where
  "mostrarResultadoFinal totalOnibus' linhasProcessadas' termo' st =
     (if totalOnibus' > 0 then
        (if \<not> leaflet st \<or> mapa st = None then (Some TypeError, st)
         else if marcadoresOnibus st = [] then (Some LeafletError, st)
         else (None, st\<lparr>efeitos := efeitos st @
                 [FitBounds (marcadoresOnibus st),
                  Alert (Encontrados totalOnibus' linhasProcessadas' termo')]\<rparr>))
      else (None, st\<lparr>efeitos := efeitos st @ [Alert (NenhumAtivo linhasProcessadas' termo')]\<rparr>))"

fun status :: "erro \<Rightarrow> nat option" where
  "status (HttpErrorResponse n) = Some n"
| "status (ErroJs x) = None"

definition mostrarErro :: "erro \<Rightarrow> componente \<Rightarrow> componente" where
  "mostrarErro e st =
     st\<lparr>ultimoErro :=
          (if status e = Some 0 then ConexaoFalhou
           else if status e = Some 404 then Endpoint404
           else if status e = Some 500 then Servidor500
           else ErroHttp (status e)),
        efeitos := efeitos st @ [Alert (ErroAoBuscar (status e))]\<rparr>"

subsection \<open>The fan-out of processarLinhas and its callbacks\<close>

text \<open>Assignment to a variable of the call of \<^verbatim>\<open>processarLinhas\<close> numbered \<open>sid\<close>.\<close>

definition atualizar :: "nat \<Rightarrow> (busca \<Rightarrow> busca) \<Rightarrow> componente \<Rightarrow> componente" where
  "atualizar sid f st = st\<lparr>buscas := (buscas st)[sid := f (buscas st ! sid)]\<rparr>"

text \<open>
  \<^verbatim>\<open>posicoes.vs.forEach\<close>: a marker, then \<^verbatim>\<open>totalOnibus++\<close>, for each vehicle; an exception
  ends the traversal.
\<close>

fun paraCadaOnibus :: "nat \<Rightarrow> jsval \<Rightarrow> jsval list \<Rightarrow> componente \<Rightarrow> excecao option \<times> componente" where
  "paraCadaOnibus sid linha [] st = (None, st)"
| "paraCadaOnibus sid linha (onibus # resto) st =
     (case adicionarMarcador onibus linha st of
        (Some x, st') \<Rightarrow> (Some x, st')
      | (None, st') \<Rightarrow>
          paraCadaOnibus sid linha resto
            (atualizar sid (\<lambda>b. b\<lparr>totalOnibus := Suc (totalOnibus b)\<rparr>) st'))"

text \<open>
  \<^verbatim>\<open>if (linhasProcessadas === totalLinhas) this.mostrarResultadoFinal(...)\<close>, the statement
  that ends each of the three branches of the callbacks.
\<close>

definition seUltimaLinha :: "nat \<Rightarrow> componente \<Rightarrow> excecao option \<times> componente" where
  "seUltimaLinha sid st =
     (let b = buscas st ! sid in
      if linhasProcessadas b = totalLinhas b
      then mostrarResultadoFinal (totalOnibus b) (linhasProcessadas b) (termo b)
             (atualizar sid (\<lambda>b. b\<lparr>finais := Suc (finais b)\<rparr>) st)
      else (None, st))"

text \<open>The \<^verbatim>\<open>next\<close> and \<^verbatim>\<open>error\<close> callbacks of the subscription to \<^verbatim>\<open>buscarPosicoes\<close>.\<close>

definition posicoes_next :: "nat \<Rightarrow> jsval \<Rightarrow> jsval \<Rightarrow> componente \<Rightarrow> excecao option \<times> componente" where
  "posicoes_next sid linha posicoes st =
     (let st1 = atualizar sid (\<lambda>b. b\<lparr>linhasProcessadas := Suc (linhasProcessadas b)\<rparr>) st in
      if nullish posicoes then (Some TypeError, st1)
      else
        (let vs = campo posicoes ''vs'' in
         if truthy vs \<and> isArray vs \<and> length (elementos vs) > 0 then
           (case paraCadaOnibus sid linha (elementos vs) st1 of
              (Some x, st2) \<Rightarrow> (Some x, st2)
            | (None, st2) \<Rightarrow> seUltimaLinha sid st2)
         else seUltimaLinha sid st1))"

definition posicoes_error :: "nat \<Rightarrow> jsval \<Rightarrow> erro \<Rightarrow> componente \<Rightarrow> excecao option \<times> componente" where
  "posicoes_error sid linha e st =
     seUltimaLinha sid (atualizar sid (\<lambda>b. b\<lparr>linhasProcessadas := Suc (linhasProcessadas b)\<rparr>) st)"

text \<open>
  \<^verbatim>\<open>linhas.forEach\<close>: the code of the line is found and written to the log through a
  template (which throws for a code that has no string); a line without a code is then
  skipped, a line with one gets a subscription to \<^verbatim>\<open>buscarPosicoes\<close>, which issues the
  request. An exception ends the traversal.
\<close>

fun despachar :: "nat \<Rightarrow> jsval list \<Rightarrow> componente \<Rightarrow> excecao option \<times> componente" where
  "despachar sid [] st = (None, st)"
| "despachar sid (linha # resto) st =
     (case codigoLinha linha of
        Inl x \<Rightarrow> (Some x, st)
      | Inr codigo \<Rightarrow>
          if toStringLanca codigo then (Some TypeError, st)
          else if \<not> truthy codigo then despachar sid resto st
          else
            (case buscarPosicoes codigo of
               Inl x \<Rightarrow> (Some x, st)
             | Inr requisicao \<Rightarrow>
                 despachar sid resto
                   (atualizar sid (\<lambda>b. b\<lparr>pendentes := pendentes b @ [(linha, codigo)]\<rparr>)
                      (st\<lparr>efeitos := efeitos st @ [Http (PosicaoLinha codigo)]\<rparr>))))"

definition processarLinhas :: "jsval \<Rightarrow> string \<Rightarrow> componente \<Rightarrow> excecao option \<times> componente" where
  "processarLinhas linhas termo' st =
     (if \<not> truthy linhas then (None, st\<lparr>efeitos := efeitos st @ [Alert (DadosVazios termo')]\<rparr>)
      else if \<not> isArray linhas then (None, st\<lparr>efeitos := efeitos st @ [Alert FormatoInesperado]\<rparr>)
      else if length (elementos linhas) = 0
      then (None, st\<lparr>efeitos := efeitos st @ [Alert (NenhumaLinha termo')]\<rparr>)
      else despachar (length (buscas st)) (elementos linhas)
             (st\<lparr>buscas := buscas st @
                   [\<lparr>totalOnibus = 0, linhasProcessadas = 0,
                     totalLinhas = length (elementos linhas), termo = termo',
                     pendentes = [], finais = 0\<rparr>]\<rparr>))"

subsection \<open>The search\<close>

text \<open>
  The component's own \<^verbatim>\<open>buscarLinhas\<close> (the button's handler), up to and including the
  subscription, and the two callbacks of that subscription.
\<close>

definition buscarLinhas_componente :: "componente \<Rightarrow> componente" where
  "buscarLinhas_componente st =
     (if trim (termoBusca st) = [] then st\<lparr>efeitos := efeitos st @ [Alert DigiteTermo]\<rparr>
      else if mapa st = None then st\<lparr>efeitos := efeitos st @ [Alert AguardeMapa]\<rparr>
      else
        (let termo' = trim (termoBusca st);
             st1 = limparMarcadores
                     (st\<lparr>carregando := True, ultimoErro := SemErro,
                         totalBuscas := Suc (totalBuscas st)\<rparr>)
         in st1\<lparr>efeitos := efeitos st1 @ [Http (Linhas termo')],
                pendLinhas := pendLinhas st1 @ [termo']\<rparr>))"

definition linhas_next :: "string \<Rightarrow> jsval \<Rightarrow> componente \<Rightarrow> excecao option \<times> componente" where
  "linhas_next termo' linhas st = processarLinhas linhas termo' (st\<lparr>carregando := False\<rparr>)"

definition linhas_error :: "erro \<Rightarrow> componente \<Rightarrow> componente" where
  "linhas_error e st = mostrarErro e (st\<lparr>carregando := False\<rparr>)"

section \<open>The component at run time\<close>

text \<open>
  What can happen to the component, one event at a time: the user types a term, presses
  the search button or the remove button, and a request in flight settles with the
  answer of the upstream service. An answer reaches the component through the operators
  of the API client (a request in flight was made by a call of \<^verbatim>\<open>buscarPosicoes\<close> that
  returned its observable). An exception that leaves a callback is reported by the
  runtime and changes nothing more.
\<close>

datatype acao =
    Digitar string
  | Buscar
  | Remover
  | LinhasChegam nat "erro + jsval"
  | PosicoesChegam nat nat "erro + jsval"

definition semIndice :: "nat \<Rightarrow> 'a list \<Rightarrow> 'a list" where
  "semIndice k xs = take k xs @ drop (Suc k) xs"

definition entregarLinhas :: "string \<Rightarrow> erro + jsval \<Rightarrow> componente \<Rightarrow> componente" where
  "entregarLinhas termo' n st =
     (case n of
        Inr linhas \<Rightarrow> snd (linhas_next termo' linhas st)
      | Inl e \<Rightarrow> linhas_error e st)"

definition entregarPosicoes :: "nat \<Rightarrow> jsval \<Rightarrow> erro + jsval \<Rightarrow> componente \<Rightarrow> excecao option \<times> componente" where
  "entregarPosicoes sid linha n st =
     (case n of
        Inr posicoes \<Rightarrow> posicoes_next sid linha posicoes st
      | Inl e \<Rightarrow> posicoes_error sid linha e st)"

fun passo :: "acao \<Rightarrow> componente \<Rightarrow> componente" where
  "passo (Digitar s) st = st\<lparr>termoBusca := s\<rparr>"
| "passo Buscar st = buscarLinhas_componente st"
| "passo Remover st = removerMarcadores st"
| "passo (LinhasChegam k r) st =
     (if k < length (pendLinhas st) then
        entregarLinhas (pendLinhas st ! k)
          (snd (buscarLinhas (pendLinhas st ! k) (\<lambda>p. r)))
          (st\<lparr>pendLinhas := semIndice k (pendLinhas st)\<rparr>)
      else st)"
| "passo (PosicoesChegam sid k r) st =
     (if sid < length (buscas st) \<and> k < length (pendentes (buscas st ! sid)) then
        (case buscarPosicoes (snd (pendentes (buscas st ! sid) ! k)) of
           Inl x \<Rightarrow> st
         | Inr requisicao \<Rightarrow>
             snd (entregarPosicoes sid (fst (pendentes (buscas st ! sid) ! k))
                    (snd (requisicao (\<lambda>p. r)))
                    (atualizar sid (\<lambda>b. b\<lparr>pendentes := semIndice k (pendentes b)\<rparr>) st)))
      else st)"

definition executar :: "acao list \<Rightarrow> componente \<Rightarrow> componente" where
  "executar as st = fold passo as st"

text \<open>
  The exception, if any, that leaves the callback run when the answer \<open>r\<close> settles the
  request numbered \<open>k\<close> of the call \<open>sid\<close>.
\<close>

definition excecaoDaEntrega :: "nat \<Rightarrow> nat \<Rightarrow> erro + jsval \<Rightarrow> componente \<Rightarrow> excecao option" where
  "excecaoDaEntrega sid k r st =
     (case buscarPosicoes (snd (pendentes (buscas st ! sid) ! k)) of
        Inl x \<Rightarrow> Some x
      | Inr requisicao \<Rightarrow>
          fst (entregarPosicoes sid (fst (pendentes (buscas st ! sid) ! k))
                 (snd (requisicao (\<lambda>p. r)))
                 (atualizar sid (\<lambda>b. b\<lparr>pendentes := semIndice k (pendentes b)\<rparr>) st)))"

text \<open>The component once Leaflet is loaded and the map is built.\<close>

definition pronto :: componente where
  "pronto = criarMapa True (ngOnInit True inicial)"

section \<open>Notions used in the statements\<close>

text \<open>The code of a line, \<open>Undefined\<close> where the expression that finds it throws.\<close>

definition codigoDe :: "jsval \<Rightarrow> jsval" where
  "codigoDe linha = (case codigoLinha linha of Inl x \<Rightarrow> Undefined | Inr codigo \<Rightarrow> codigo)"

text \<open>The lines of a response that have a code, in the order of the response.\<close>

definition comCodigo :: "jsval list \<Rightarrow> jsval list" where
  "comCodigo ls = filter (\<lambda>linha. truthy (codigoDe linha)) ls"

text \<open>Kinds of effects.\<close>

fun ehPedidoPosicao :: "efeito \<Rightarrow> bool" where
  "ehPedidoPosicao (Http (PosicaoLinha c)) = True"
| "ehPedidoPosicao e = False"

fun ehFitBounds :: "efeito \<Rightarrow> bool" where
  "ehFitBounds (FitBounds ms) = True"
| "ehFitBounds e = False"

fun ehAddTo :: "efeito \<Rightarrow> bool" where
  "ehAddTo (AddTo m) = True"
| "ehAddTo e = False"

fun ehRemoveLayer :: "efeito \<Rightarrow> bool" where
  "ehRemoveLayer (RemoveLayer m) = True"
| "ehRemoveLayer e = False"

text \<open>The calls on the map: what mutates it (layers added or removed, viewport fitted).\<close>

fun ehMutacao :: "efeito \<Rightarrow> bool" where
  "ehMutacao (AddTo m) = True"
| "ehMutacao (RemoveLayer m) = True"
| "ehMutacao (FitBounds ms) = True"
| "ehMutacao e = False"

text \<open>The dialog that only \<^verbatim>\<open>mostrarErro\<close> opens.\<close>

fun ehErroAoBuscar :: "efeito \<Rightarrow> bool" where
  "ehErroAoBuscar (Alert (ErroAoBuscar s)) = True"
| "ehErroAoBuscar e = False"

text \<open>
  The map shows the tile layer and exactly the markers of \<^verbatim>\<open>marcadoresOnibus\<close>, in the
  order they were added.
\<close>

definition coerente :: "componente \<Rightarrow> bool" where
  "coerente st =
     (leaflet st \<and> mapa st = Some (TileLayer # map MarkerLayer (marcadoresOnibus st)))"

text \<open>
  A request in flight as the fan-out makes them: for a line that has properties (the
  expression that finds the code of a line throws otherwise) and with a code that has a
  string (the log template and \<^verbatim>\<open>buscarPosicoes\<close> throw otherwise).
\<close>

definition pendenteOk :: "jsval \<times> jsval \<Rightarrow> bool" where
  "pendenteOk p = (\<not> nullish (fst p) \<and> \<not> toStringLanca (snd p))"

text \<open>Every request in flight is such a request, and the map is coherent with the list.\<close>

definition integro :: "componente \<Rightarrow> bool" where
  "integro st =
     (coerente st \<and> list_all (\<lambda>b. list_all pendenteOk (pendentes b)) (buscas st))"

text \<open>
  A vehicle and a line for which \<^verbatim>\<open>adicionarMarcador\<close> does not throw: each has
  properties, and those that \<^verbatim>\<open>parseFloat\<close> and the popup template convert to strings
  have one.
\<close>

definition onibusSeguro :: "jsval \<Rightarrow> bool" where
  "onibusSeguro onibus =
     (\<not> nullish onibus \<and>
      \<not> toStringLanca (campo onibus ''py'') \<and>
      \<not> toStringLanca (campo onibus ''px'') \<and>
      \<not> toStringLanca (ou (campo onibus ''ta'') (JStr ''N/A'')))"

definition linhaSegura :: "jsval \<Rightarrow> bool" where
  "linhaSegura linha =
     (\<not> nullish linha \<and>
      \<not> toStringLanca (ou (campo linha ''c'') (JStr ''N/A'')) \<and>
      \<not> toStringLanca (ou (campo linha ''sl'') (JStr ''N/A'')))"

text \<open>
  A position payload on which the \<^verbatim>\<open>next\<close> callback does not throw, when the line is
  such a line: it has properties, and each vehicle of its \<^verbatim>\<open>vs\<close> is such a vehicle.
\<close>

definition bemFormada :: "jsval \<Rightarrow> bool" where
  "bemFormada posicoes =
     (\<not> nullish posicoes \<and> list_all onibusSeguro (elementos (campo posicoes ''vs'')))"

text \<open>The requests in flight of one call are for such lines, with codes that have a string.\<close>

definition seguras :: "busca \<Rightarrow> bool" where
  "seguras b = list_all (\<lambda>p. linhaSegura (fst p) \<and> \<not> toStringLanca (snd p)) (pendentes b)"

text \<open>
  The bookkeeping of one call of \<^verbatim>\<open>processarLinhas\<close> is in step: the lines counted and the
  requests still in flight add up to the number of lines, and the final result has been
  shown once if all lines are counted and not at all otherwise.
\<close>

definition emDia :: "busca \<Rightarrow> bool" where
  "emDia b =
     (linhasProcessadas b + length (pendentes b) = totalLinhas b \<and>
      finais b = (if linhasProcessadas b = totalLinhas b then 1 else 0) \<and>
      list_all (\<lambda>p. \<not> nullish (fst p)) (pendentes b))"

text \<open>
  The final result of one call of \<^verbatim>\<open>processarLinhas\<close> has been shown at most once, and if
  it has, all lines are counted and none of its requests is in flight.
\<close>

definition umaVezNoFim :: "busca \<Rightarrow> bool" where
  "umaVezNoFim b =
     (finais b \<le> 1 \<and>
      (finais b = 1 \<longrightarrow> linhasProcessadas b = totalLinhas b \<and> pendentes b = []) \<and>
      linhasProcessadas b + length (pendentes b) \<le> totalLinhas b)"

text \<open>
  An event that, if it is an answer to a position request of the call \<open>sid\<close>, is a failure
  or a payload that has properties and whose vehicles are as above.
\<close>

fun benigna :: "nat \<Rightarrow> acao \<Rightarrow> bool" where
  "benigna sid (PosicoesChegam s k (Inr posicoes)) = (s \<noteq> sid \<or> bemFormada posicoes)"
| "benigna sid a = True"

text \<open>An event that is not an answer to a position request of a call other than \<open>sid\<close>.\<close>

fun propria :: "nat \<Rightarrow> acao \<Rightarrow> bool" where
  "propria sid (PosicoesChegam s k r) = (s = sid)"
| "propria sid a = True"


section \<open>Frame lemmas\<close>

lemma atualizar_campos:
  "termoBusca (atualizar sid f st) = termoBusca st"
  "marcadoresOnibus (atualizar sid f st) = marcadoresOnibus st"
  "mapa (atualizar sid f st) = mapa st"
  "leaflet (atualizar sid f st) = leaflet st"
  "efeitos (atualizar sid f st) = efeitos st"
  "pendLinhas (atualizar sid f st) = pendLinhas st"
  "prox (atualizar sid f st) = prox st"
  "length (buscas (atualizar sid f st)) = length (buscas st)"
  by (simp_all add: atualizar_def)

lemma atualizar_nth:
  "buscas (atualizar sid f st) ! j =
     (if j = sid \<and> sid < length (buscas st) then f (buscas st ! sid) else buscas st ! j)"
proof (cases "sid < length (buscas st)")
  case True
  then show ?thesis by (auto simp: atualizar_def nth_list_update)
next
  case False
  then show ?thesis by (simp add: atualizar_def list_update_beyond)
qed

lemma coerente_atualizar: "coerente (atualizar sid f st) = coerente st"
  by (simp add: coerente_def atualizar_campos)

text \<open>What one call of adicionarMarcador can do.\<close>

lemma adicionarMarcador_casos:
  obtains (nada) x where "adicionarMarcador onibus linha st = (x, st)"
  | (novo) cs where "leaflet st" and "mapa st = Some cs" and
      "adicionarMarcador onibus linha st =
         (None, st\<lparr>mapa := Some (cs @ [MarkerLayer (Marcador (prox st) onibus linha)]),
                 efeitos := efeitos st @ [AddTo (Marcador (prox st) onibus linha)],
                 marcadoresOnibus := marcadoresOnibus st @ [Marcador (prox st) onibus linha],
                 prox := Suc (prox st)\<rparr>)"
proof (cases "mapa st")
  case None
  then have "adicionarMarcador onibus linha st = (None, st)"
    by (simp add: adicionarMarcador_def)
  then show ?thesis by (rule nada)
next
  case (Some cs)
  show ?thesis
  proof (cases "leaflet st \<and> \<not> nullish onibus \<and>
      \<not> toStringLanca (campo onibus ''py'') \<and> \<not> toStringLanca (campo onibus ''px'') \<and>
      \<not> semNumeral (campo onibus ''py'') \<and> \<not> semNumeral (campo onibus ''px'') \<and>
      \<not> popupHtml_lanca onibus linha")
    case True
    with Some show ?thesis
      by (intro novo [of cs]) (simp_all add: adicionarMarcador_def Let_def parseFloat_def isNaN_def)
  next
    case False
    with Some have "\<exists>x. adicionarMarcador onibus linha st = (x, st)"
      by (auto simp: adicionarMarcador_def parseFloat_def isNaN_def)
    then show ?thesis using nada by blast
  qed
qed

lemma adicionarMarcador_buscas:
  "buscas (snd (adicionarMarcador onibus linha st)) = buscas st"
  by (cases rule: adicionarMarcador_casos [of onibus linha st]) simp_all

lemma adicionarMarcador_fixos:
  "termoBusca (snd (adicionarMarcador onibus linha st)) = termoBusca st"
  "pendLinhas (snd (adicionarMarcador onibus linha st)) = pendLinhas st"
  "leaflet (snd (adicionarMarcador onibus linha st)) = leaflet st"
  by (cases rule: adicionarMarcador_casos [of onibus linha st]; simp)+

lemma adicionarMarcador_coerente:
  "coerente st \<Longrightarrow> coerente (snd (adicionarMarcador onibus linha st))"
  by (cases rule: adicionarMarcador_casos [of onibus linha st]) (auto simp: coerente_def)

lemma adicionarMarcador_nao_lanca:
  "onibusSeguro onibus \<Longrightarrow> linhaSegura linha \<Longrightarrow> fst (adicionarMarcador onibus linha st) = None"
  by (simp add: adicionarMarcador_def Let_def onibusSeguro_def linhaSegura_def popupHtml_lanca_def
      parseFloat_def isNaN_def split: option.splits)

lemma adicionarMarcador_marcadores:
  "\<exists>ms. marcadoresOnibus (snd (adicionarMarcador onibus linha st)) = marcadoresOnibus st @ ms \<and>
        efeitos (snd (adicionarMarcador onibus linha st)) = efeitos st @ map AddTo ms \<and>
        length ms \<le> 1"
proof (cases rule: adicionarMarcador_casos [of onibus linha st])
  case (nada x)
  then show ?thesis by (intro exI[of _ "[]"]) simp
next
  case (novo cs)
  then show ?thesis by (intro exI[of _ "[Marcador (prox st) onibus linha]"]) simp
qed

lemma buscas_atualizar:
  "buscas (atualizar sid f st) = (buscas st)[sid := f (buscas st ! sid)]"
  by (simp add: atualizar_def)

lemma soma_totalOnibus:
  "(xs[sid := (xs ! sid)\<lparr>totalOnibus := Suc (totalOnibus (xs ! sid))\<rparr>])
     [sid := ((xs[sid := (xs ! sid)\<lparr>totalOnibus := Suc (totalOnibus (xs ! sid))\<rparr>]) ! sid)
        \<lparr>totalOnibus := totalOnibus ((xs[sid := (xs ! sid)\<lparr>totalOnibus := Suc (totalOnibus (xs ! sid))\<rparr>]) ! sid) + n\<rparr>]
   = xs[sid := (xs ! sid)\<lparr>totalOnibus := totalOnibus (xs ! sid) + Suc n\<rparr>]"
proof (cases "sid < length xs")
  case True
  then show ?thesis by simp
next
  case False
  then show ?thesis by (simp add: list_update_beyond)
qed

text \<open>What the traversal of the vehicles of one response does.\<close>

lemma paraCadaOnibus_resumo:
  "\<exists>ms n.
     marcadoresOnibus (snd (paraCadaOnibus sid linha vs st)) = marcadoresOnibus st @ ms \<and>
     efeitos (snd (paraCadaOnibus sid linha vs st)) = efeitos st @ map AddTo ms \<and>
     length ms \<le> n \<and> n \<le> length vs \<and>
     (fst (paraCadaOnibus sid linha vs st) = None \<longrightarrow> n = length vs) \<and>
     buscas (snd (paraCadaOnibus sid linha vs st)) =
       (buscas st)[sid := (buscas st ! sid)\<lparr>totalOnibus := totalOnibus (buscas st ! sid) + n\<rparr>]"
  (is "\<exists>ms n. ?P vs st ms n")
proof (induction vs arbitrary: st)
  case Nil
  show ?case by (intro exI[of _ "[]"] exI[of _ 0]) simp
next
  case (Cons onibus resto)
  let ?inc = "\<lambda>b. b\<lparr>totalOnibus := Suc (totalOnibus b)\<rparr>"
  have passo_ind: "\<exists>ms n. ?P (onibus # resto) st ms n"
    if eq: "paraCadaOnibus sid linha (onibus # resto) st = paraCadaOnibus sid linha resto (atualizar sid ?inc st')"
    and m: "marcadoresOnibus st' = marcadoresOnibus st @ pre"
    and e: "efeitos st' = efeitos st @ map AddTo pre"
    and p: "length pre \<le> 1"
    and b: "buscas st' = buscas st"
    for st' pre
  proof -
    from Cons.IH [of "atualizar sid ?inc st'"] obtain ms n where
      raw: "?P resto (atualizar sid ?inc st') ms n" by (elim exE) (rule that)
    have bs: "buscas (snd (paraCadaOnibus sid linha resto (atualizar sid ?inc st'))) =
        (buscas st)[sid := (buscas st ! sid)\<lparr>totalOnibus := totalOnibus (buscas st ! sid) + Suc n\<rparr>]"
      using raw b soma_totalOnibus [of "buscas st" sid n] by (simp add: buscas_atualizar)
    have main: "?P (onibus # resto) st (pre @ ms) (Suc n)"
      using raw m e p bs unfolding eq by (simp add: atualizar_campos)
    show ?thesis
      by (rule exI [of _ "pre @ ms"], rule exI [of _ "Suc n"], rule main)
  qed
  show ?case
  proof (cases rule: adicionarMarcador_casos [of onibus linha st])
    case (nada x)
    show ?thesis
    proof (cases x)
      case (Some e)
      with nada show ?thesis by (intro exI[of _ "[]"] exI[of _ 0]) simp
    next
      case None
      with nada show ?thesis by (intro passo_ind [of st "[]"]) simp_all
    qed
  next
    case (novo cs)
    let ?m = "Marcador (prox st) onibus linha"
    from novo show ?thesis
      by (intro passo_ind [of "st\<lparr>mapa := Some (cs @ [MarkerLayer ?m]),
              efeitos := efeitos st @ [AddTo ?m],
              marcadoresOnibus := marcadoresOnibus st @ [?m], prox := Suc (prox st)\<rparr>" "[?m]"])
        simp_all
  qed
qed

lemma paraCadaOnibus_fixos:
  "termoBusca (snd (paraCadaOnibus sid linha vs st)) = termoBusca st \<and>
   pendLinhas (snd (paraCadaOnibus sid linha vs st)) = pendLinhas st \<and>
   leaflet (snd (paraCadaOnibus sid linha vs st)) = leaflet st"
proof (induction vs arbitrary: st)
  case Nil
  show ?case by simp
next
  case (Cons onibus resto)
  show ?case
    by (cases rule: adicionarMarcador_casos [of onibus linha st])
       (auto simp: Cons.IH atualizar_campos split: option.splits)
qed

lemma paraCadaOnibus_coerente:
  "coerente st \<Longrightarrow> coerente (snd (paraCadaOnibus sid linha vs st))"
proof (induction vs arbitrary: st)
  case Nil
  then show ?case by simp
next
  case (Cons onibus resto)
  have c: "coerente (snd (adicionarMarcador onibus linha st))"
    using Cons.prems by (rule adicionarMarcador_coerente)
  show ?case
  proof (cases "adicionarMarcador onibus linha st")
    case (Pair x st')
    with c have "coerente st'" by simp
    then show ?thesis
      using Pair Cons.IH [of "atualizar sid (\<lambda>b. b\<lparr>totalOnibus := Suc (totalOnibus b)\<rparr>) st'"]
      by (cases x) (simp_all add: coerente_atualizar)
  qed
qed

lemma paraCadaOnibus_nao_lanca:
  "list_all onibusSeguro vs \<Longrightarrow> linhaSegura linha \<Longrightarrow>
   fst (paraCadaOnibus sid linha vs st) = None"
proof (induction vs arbitrary: st)
  case Nil
  show ?case by simp
next
  case (Cons onibus resto)
  then have "fst (adicionarMarcador onibus linha st) = None"
    by (simp add: adicionarMarcador_nao_lanca)
  then show ?case using Cons by (cases "adicionarMarcador onibus linha st") simp
qed

lemma paraCadaOnibus_erros:
  "filter ehErroAoBuscar (efeitos (snd (paraCadaOnibus sid linha vs st))) =
   filter ehErroAoBuscar (efeitos st)"
proof -
  obtain ms where "efeitos (snd (paraCadaOnibus sid linha vs st)) = efeitos st @ map AddTo ms"
    using paraCadaOnibus_resumo [of sid linha vs st] by blast
  moreover have "filter ehErroAoBuscar (map AddTo ms) = []"
    by (induction ms) simp_all
  ultimately show ?thesis by simp
qed

subsection \<open>The final result\<close>

lemma mostrarResultadoFinal_fixos:
  "marcadoresOnibus (snd (mostrarResultadoFinal a b c st)) = marcadoresOnibus st"
  "mapa (snd (mostrarResultadoFinal a b c st)) = mapa st"
  "leaflet (snd (mostrarResultadoFinal a b c st)) = leaflet st"
  "buscas (snd (mostrarResultadoFinal a b c st)) = buscas st"
  "termoBusca (snd (mostrarResultadoFinal a b c st)) = termoBusca st"
  "pendLinhas (snd (mostrarResultadoFinal a b c st)) = pendLinhas st"
  "filter ehErroAoBuscar (efeitos (snd (mostrarResultadoFinal a b c st))) =
     filter ehErroAoBuscar (efeitos st)"
  by (simp_all add: mostrarResultadoFinal_def)

lemma seUltimaLinha_fixos:
  "marcadoresOnibus (snd (seUltimaLinha sid st)) = marcadoresOnibus st"
  "mapa (snd (seUltimaLinha sid st)) = mapa st"
  "leaflet (snd (seUltimaLinha sid st)) = leaflet st"
  "termoBusca (snd (seUltimaLinha sid st)) = termoBusca st"
  "pendLinhas (snd (seUltimaLinha sid st)) = pendLinhas st"
  "filter ehErroAoBuscar (efeitos (snd (seUltimaLinha sid st))) =
     filter ehErroAoBuscar (efeitos st)"
  by (simp_all add: seUltimaLinha_def Let_def mostrarResultadoFinal_fixos atualizar_campos)

lemma seUltimaLinha_buscas:
  "buscas (snd (seUltimaLinha sid st)) =
     (if linhasProcessadas (buscas st ! sid) = totalLinhas (buscas st ! sid)
      then (buscas st)[sid := (buscas st ! sid)\<lparr>finais := Suc (finais (buscas st ! sid))\<rparr>]
      else buscas st)"
  by (simp add: seUltimaLinha_def Let_def mostrarResultadoFinal_fixos buscas_atualizar)

lemma seUltimaLinha_coerente: "coerente (snd (seUltimaLinha sid st)) = coerente st"
  by (simp add: coerente_def seUltimaLinha_fixos)

text \<open>
  The effects of the statement that ends each branch: none when lines are missing, the
  dialog alone when no bus was counted, the fit and the dialog when the markers can be
  fitted.
\<close>

lemma seUltimaLinha_efeitos:
  "efeitos (snd (seUltimaLinha sid st)) =
     efeitos st @
     (if linhasProcessadas (buscas st ! sid) \<noteq> totalLinhas (buscas st ! sid) then []
      else if totalOnibus (buscas st ! sid) = 0
      then [Alert (NenhumAtivo (linhasProcessadas (buscas st ! sid)) (termo (buscas st ! sid)))]
      else if leaflet st \<and> mapa st \<noteq> None \<and> marcadoresOnibus st \<noteq> []
      then [FitBounds (marcadoresOnibus st),
            Alert (Encontrados (totalOnibus (buscas st ! sid))
                     (linhasProcessadas (buscas st ! sid)) (termo (buscas st ! sid)))]
      else [])"
  by (auto simp: seUltimaLinha_def Let_def mostrarResultadoFinal_def atualizar_campos)

subsection \<open>The callbacks of a position request\<close>

text \<open>What the delivery of one answer changes, whichever branch runs.\<close>

lemma posicoes_next_resumo:
  assumes "sid < length (buscas st)"
  shows "\<exists>ms n f.
     marcadoresOnibus (snd (posicoes_next sid linha posicoes st)) = marcadoresOnibus st @ ms \<and>
     length ms \<le> n \<and> f \<le> 1 \<and>
     (f = 1 \<longrightarrow> Suc (linhasProcessadas (buscas st ! sid)) = totalLinhas (buscas st ! sid)) \<and>
     (fst (posicoes_next sid linha posicoes st) = None \<and>
        Suc (linhasProcessadas (buscas st ! sid)) = totalLinhas (buscas st ! sid) \<longrightarrow> f = 1) \<and>
     buscas (snd (posicoes_next sid linha posicoes st)) =
       (buscas st)[sid := (buscas st ! sid)
          \<lparr>totalOnibus := totalOnibus (buscas st ! sid) + n,
           linhasProcessadas := Suc (linhasProcessadas (buscas st ! sid)),
           finais := finais (buscas st ! sid) + f\<rparr>]"
  (is "\<exists>ms n f. ?P ms n f")
proof -
  let ?inc = "\<lambda>b. b\<lparr>linhasProcessadas := Suc (linhasProcessadas b)\<rparr>"
  let ?st1 = "atualizar sid ?inc st"
  let ?vs = "elementos (campo posicoes ''vs'')"
  let ?b = "buscas st ! sid"
  have fim: "\<exists>ms n f. ?P ms n f"
    if r: "posicoes_next sid linha posicoes st = seUltimaLinha sid st2"
      and m: "marcadoresOnibus st2 = marcadoresOnibus st @ ms" and l: "length ms \<le> n"
      and b: "buscas st2 = (buscas st)[sid := ?b\<lparr>totalOnibus := totalOnibus ?b + n,
                linhasProcessadas := Suc (linhasProcessadas ?b)\<rparr>]"
    for st2 ms n
  proof -
    let ?f = "if Suc (linhasProcessadas ?b) = totalLinhas ?b then 1 else 0 :: nat"
    have "?P ms n ?f"
      using assms m l b unfolding r
      by (simp add: seUltimaLinha_fixos seUltimaLinha_buscas)
    then show ?thesis by (rule_tac x = ms in exI, rule_tac x = n in exI, rule_tac x = ?f in exI)
  qed
  have b1: "buscas ?st1 = (buscas st)[sid := ?b\<lparr>totalOnibus := totalOnibus ?b + 0,
                linhasProcessadas := Suc (linhasProcessadas ?b)\<rparr>]"
    by (simp add: buscas_atualizar)
  show ?thesis
  proof (cases "nullish posicoes")
    case True
    then have r: "posicoes_next sid linha posicoes st = (Some TypeError, ?st1)"
      by (simp add: posicoes_next_def)
    have "?P [] 0 0" unfolding r using assms by (simp add: atualizar_campos buscas_atualizar)
    then show ?thesis by (rule_tac x = "[]" in exI, rule_tac x = 0 in exI, rule_tac x = 0 in exI)
  next
    case False
    show ?thesis
    proof (cases "truthy (campo posicoes ''vs'') \<and> isArray (campo posicoes ''vs'') \<and> 0 < length ?vs")
      case nao: False
      with False have r: "posicoes_next sid linha posicoes st = seUltimaLinha sid ?st1"
        by (auto simp: posicoes_next_def Let_def)
      show ?thesis by (rule fim [OF r _ _ b1]) (simp_all add: atualizar_campos)
    next
      case sim: True
      obtain ms n where
        h: "marcadoresOnibus (snd (paraCadaOnibus sid linha ?vs ?st1)) = marcadoresOnibus st @ ms"
           "length ms \<le> n"
           "buscas (snd (paraCadaOnibus sid linha ?vs ?st1)) =
              (buscas ?st1)[sid := (buscas ?st1 ! sid)\<lparr>totalOnibus := totalOnibus (buscas ?st1 ! sid) + n\<rparr>]"
        using paraCadaOnibus_resumo [of sid linha ?vs ?st1] by (auto simp: atualizar_campos)
      have b2: "buscas (snd (paraCadaOnibus sid linha ?vs ?st1)) =
          (buscas st)[sid := ?b\<lparr>totalOnibus := totalOnibus ?b + n,
                linhasProcessadas := Suc (linhasProcessadas ?b)\<rparr>]"
        unfolding h(3) using assms by (cases "buscas st ! sid") (simp add: buscas_atualizar)
      show ?thesis
      proof (cases "paraCadaOnibus sid linha ?vs ?st1")
        case (Pair x st2)
        show ?thesis
        proof (cases x)
          case None
          with Pair False sim have r: "posicoes_next sid linha posicoes st = seUltimaLinha sid st2"
            by (simp add: posicoes_next_def Let_def)
          have m2: "marcadoresOnibus st2 = marcadoresOnibus st @ ms" using h(1) Pair by simp
          have b3: "buscas st2 = (buscas st)[sid := ?b\<lparr>totalOnibus := totalOnibus ?b + n,
                linhasProcessadas := Suc (linhasProcessadas ?b)\<rparr>]"
            using b2 Pair by simp
          show ?thesis by (rule fim [OF r m2 h(2) b3])
        next
          case (Some e)
          with Pair False sim have r: "posicoes_next sid linha posicoes st = (Some e, st2)"
            by (simp add: posicoes_next_def Let_def)
          have "?P ms n 0" unfolding r using h(1,2) b2 Pair by simp
          then show ?thesis
            by (rule_tac x = ms in exI, rule_tac x = n in exI, rule_tac x = 0 in exI)
        qed
      qed
    qed
  qed
qed

lemma posicoes_next_fixos:
  "termoBusca (snd (posicoes_next sid linha posicoes st)) = termoBusca st \<and>
   pendLinhas (snd (posicoes_next sid linha posicoes st)) = pendLinhas st \<and>
   leaflet (snd (posicoes_next sid linha posicoes st)) = leaflet st \<and>
   filter ehErroAoBuscar (efeitos (snd (posicoes_next sid linha posicoes st))) =
     filter ehErroAoBuscar (efeitos st)"
proof -
  let ?st1 = "atualizar sid (\<lambda>b. b\<lparr>linhasProcessadas := Suc (linhasProcessadas b)\<rparr>) st"
  let ?vs = "elementos (campo posicoes ''vs'')"
  obtain x st2 where p: "paraCadaOnibus sid linha ?vs ?st1 = (x, st2)"
    by (cases "paraCadaOnibus sid linha ?vs ?st1")
  have f: "termoBusca st2 = termoBusca st" "pendLinhas st2 = pendLinhas st"
    "leaflet st2 = leaflet st"
    "filter ehErroAoBuscar (efeitos st2) = filter ehErroAoBuscar (efeitos st)"
    using paraCadaOnibus_fixos [of sid linha ?vs ?st1] paraCadaOnibus_erros [of sid linha ?vs ?st1] p
    by (simp_all add: atualizar_campos)
  show ?thesis
    using p f
    by (cases x) (simp_all add: posicoes_next_def Let_def seUltimaLinha_fixos atualizar_campos)
qed

lemma posicoes_next_coerente:
  assumes "coerente st"
  shows "coerente (snd (posicoes_next sid linha posicoes st))"
proof -
  let ?st1 = "atualizar sid (\<lambda>b. b\<lparr>linhasProcessadas := Suc (linhasProcessadas b)\<rparr>) st"
  let ?vs = "elementos (campo posicoes ''vs'')"
  obtain x st2 where p: "paraCadaOnibus sid linha ?vs ?st1 = (x, st2)"
    by (cases "paraCadaOnibus sid linha ?vs ?st1")
  have c1: "coerente ?st1" using assms by (simp add: coerente_atualizar)
  have "coerente st2" using paraCadaOnibus_coerente [OF c1, of sid linha ?vs] p by simp
  then show ?thesis
    using p c1
    by (cases x) (simp_all add: posicoes_next_def Let_def seUltimaLinha_coerente)
qed

lemma posicoes_error_fixos:
  "marcadoresOnibus (snd (posicoes_error sid linha e st)) = marcadoresOnibus st"
  "mapa (snd (posicoes_error sid linha e st)) = mapa st"
  "termoBusca (snd (posicoes_error sid linha e st)) = termoBusca st"
  "pendLinhas (snd (posicoes_error sid linha e st)) = pendLinhas st"
  "leaflet (snd (posicoes_error sid linha e st)) = leaflet st"
  "filter ehErroAoBuscar (efeitos (snd (posicoes_error sid linha e st))) =
     filter ehErroAoBuscar (efeitos st)"
  by (simp_all add: posicoes_error_def seUltimaLinha_fixos atualizar_campos)

lemma posicoes_error_buscas:
  assumes "sid < length (buscas st)"
  shows "buscas (snd (posicoes_error sid linha e st)) =
     (buscas st)[sid := (buscas st ! sid)
        \<lparr>linhasProcessadas := Suc (linhasProcessadas (buscas st ! sid)),
         finais := finais (buscas st ! sid) +
           (if Suc (linhasProcessadas (buscas st ! sid)) = totalLinhas (buscas st ! sid)
            then 1 else 0)\<rparr>]"
  using assms
  by (simp add: posicoes_error_def seUltimaLinha_buscas buscas_atualizar)

lemma posicoes_error_coerente:
  "coerente (snd (posicoes_error sid linha e st)) = coerente st"
  by (simp add: coerente_def posicoes_error_fixos)

subsection \<open>The fan-out\<close>

lemma despachar_fixos:
  "marcadoresOnibus (snd (despachar sid ls st)) = marcadoresOnibus st \<and>
   mapa (snd (despachar sid ls st)) = mapa st \<and>
   leaflet (snd (despachar sid ls st)) = leaflet st \<and>
   termoBusca (snd (despachar sid ls st)) = termoBusca st \<and>
   pendLinhas (snd (despachar sid ls st)) = pendLinhas st \<and>
   length (buscas (snd (despachar sid ls st))) = length (buscas st) \<and>
   filter ehErroAoBuscar (efeitos (snd (despachar sid ls st))) = filter ehErroAoBuscar (efeitos st)"
proof (induction ls arbitrary: st)
  case Nil
  show ?case by simp
next
  case (Cons linha resto)
  show ?case
    by (cases "codigoLinha linha") (simp_all add: Cons.IH atualizar_campos buscarPosicoes_def)
qed

lemma despachar_outras:
  "j \<noteq> sid \<Longrightarrow> buscas (snd (despachar sid ls st)) ! j = buscas st ! j"
proof (induction ls arbitrary: st)
  case Nil
  show ?case by simp
next
  case (Cons linha resto)
  then show ?case
    by (cases "codigoLinha linha") (simp_all add: atualizar_nth buscarPosicoes_def)
qed

lemma codigoLinha_Inr: "\<not> nullish linha \<Longrightarrow> codigoLinha linha = Inr (codigoDe linha)"
  by (simp add: codigoDe_def codigoLinha_def)

text \<open>
  The fan-out over lines that all have properties and a code that has a string: one
  request per line with a code.
\<close>

lemma despachar_sem_nulos:
  assumes "list_all (\<lambda>linha. \<not> nullish linha \<and> \<not> toStringLanca (codigoDe linha)) ls"
    and "sid < length (buscas st)"
  shows "fst (despachar sid ls st) = None \<and>
     efeitos (snd (despachar sid ls st)) =
       efeitos st @ map (\<lambda>linha. Http (PosicaoLinha (codigoDe linha))) (comCodigo ls) \<and>
     buscas (snd (despachar sid ls st)) =
       (buscas st)[sid := (buscas st ! sid)
          \<lparr>pendentes := pendentes (buscas st ! sid) @
             map (\<lambda>linha. (linha, codigoDe linha)) (comCodigo ls)\<rparr>]"
  using assms
proof (induction ls arbitrary: st)
  case Nil
  then show ?case by (simp add: comCodigo_def)
next
  case (Cons linha resto)
  then have c: "codigoLinha linha = Inr (codigoDe linha)"
    and t: "\<not> toStringLanca (codigoDe linha)"
    and r: "list_all (\<lambda>linha. \<not> nullish linha \<and> \<not> toStringLanca (codigoDe linha)) resto"
    by (simp_all add: codigoLinha_Inr)
  show ?case
  proof (cases "truthy (codigoDe linha)")
    case False
    then show ?thesis using c t Cons.IH [OF r Cons.prems(2)] by (simp add: comCodigo_def)
  next
    case True
    let ?st' = "atualizar sid (\<lambda>b. b\<lparr>pendentes := pendentes b @ [(linha, codigoDe linha)]\<rparr>)
                  (st\<lparr>efeitos := efeitos st @ [Http (PosicaoLinha (codigoDe linha))]\<rparr>)"
    have l: "sid < length (buscas ?st')" using Cons.prems(2) by (simp add: atualizar_campos)
    have e: "despachar sid (linha # resto) st = despachar sid resto ?st'"
      using c t True by (simp add: buscarPosicoes_def)
    show ?thesis
      unfolding e using Cons.IH [OF r l] True Cons.prems(2)
      by (simp add: comCodigo_def atualizar_campos buscas_atualizar)
  qed
qed

lemma processarLinhas_fixos:
  "marcadoresOnibus (snd (processarLinhas linhas t st)) = marcadoresOnibus st"
  "mapa (snd (processarLinhas linhas t st)) = mapa st"
  "leaflet (snd (processarLinhas linhas t st)) = leaflet st"
  "termoBusca (snd (processarLinhas linhas t st)) = termoBusca st"
  "pendLinhas (snd (processarLinhas linhas t st)) = pendLinhas st"
  "filter ehErroAoBuscar (efeitos (snd (processarLinhas linhas t st))) =
     filter ehErroAoBuscar (efeitos st)"
  by (simp_all add: processarLinhas_def despachar_fixos [THEN conjunct1]
      despachar_fixos)

lemma processarLinhas_buscas:
  "length (buscas st) \<le> length (buscas (snd (processarLinhas linhas t st)))"
  "j < length (buscas st) \<Longrightarrow> buscas (snd (processarLinhas linhas t st)) ! j = buscas st ! j"
  by (simp_all add: processarLinhas_def despachar_fixos despachar_outras nth_append)

lemma processarLinhas_coerente:
  "coerente (snd (processarLinhas linhas t st)) = coerente st"
  by (simp add: coerente_def processarLinhas_fixos)

subsection \<open>Clearing and searching\<close>

lemma fold_removeLayer:
  "fold removeLayer ms cs = filter (\<lambda>c. c \<notin> MarkerLayer ` set ms) cs"
proof (induction ms arbitrary: cs)
  case Nil
  show ?case by simp
next
  case (Cons m ms)
  have "fold removeLayer (m # ms) cs = fold removeLayer ms (removeLayer m cs)" by simp
  also have "\<dots> = filter (\<lambda>c. c \<notin> MarkerLayer ` set ms) (removeLayer m cs)" by (rule Cons.IH)
  also have "\<dots> = filter (\<lambda>c. c \<notin> MarkerLayer ` set (m # ms)) cs"
    unfolding removeLayer_def filter_filter by (rule filter_cong) auto
  finally show ?case .
qed

lemma limparMarcadores_coerente:
  "coerente st \<Longrightarrow>
     limparMarcadores st =
       st\<lparr>mapa := Some [TileLayer],
          efeitos := efeitos st @ map RemoveLayer (marcadoresOnibus st),
          marcadoresOnibus := []\<rparr>"
  by (auto simp: limparMarcadores_def coerente_def fold_removeLayer filter_empty_conv)

lemma limparMarcadores_fixos:
  "buscas (limparMarcadores st) = buscas st"
  "termoBusca (limparMarcadores st) = termoBusca st"
  "pendLinhas (limparMarcadores st) = pendLinhas st"
  "leaflet (limparMarcadores st) = leaflet st"
  "marcadoresOnibus (limparMarcadores st) = (if mapa st = None then marcadoresOnibus st else [])"
  "filter ehErroAoBuscar (efeitos (limparMarcadores st)) = filter ehErroAoBuscar (efeitos st)"
  by (auto simp: limparMarcadores_def filter_empty_conv split: option.splits)

lemma limparMarcadores_mantem_coerente: "coerente st \<Longrightarrow> coerente (limparMarcadores st)"
  by (simp add: limparMarcadores_coerente) (simp add: coerente_def)

lemma buscarLinhas_componente_coerente:
  "coerente st \<Longrightarrow> coerente (buscarLinhas_componente st)"
proof -
  assume c: "coerente st"
  let ?st0 = "st\<lparr>carregando := True, ultimoErro := SemErro, totalBuscas := Suc (totalBuscas st)\<rparr>"
  have "coerente ?st0" using c by (simp add: coerente_def)
  then have "coerente (limparMarcadores ?st0)" by (rule limparMarcadores_mantem_coerente)
  then show ?thesis using c by (simp add: buscarLinhas_componente_def Let_def coerente_def)
qed

subsection \<open>What the API client delivers\<close>

lemma buscarLinhas_emite:
  "buscarLinhas t up = ([Linhas t], Inr (case up (Linhas t) of Inl e \<Rightarrow> JArr [] | Inr v \<Rightarrow> v))"
  by (simp add: buscarLinhas_def catchError_def http_get_def of_rx_def split: sum.splits)

lemma buscarPosicoes_emite:
  "buscarPosicoes c =
     (if toStringLanca c then Inl TypeError
      else Inr (\<lambda>up. ([PosicaoLinha c],
             Inr (case up (PosicaoLinha c) of
                    Inl e \<Rightarrow> JObj [(''hr'', JStr []), (''vs'', JArr [])] | Inr v \<Rightarrow> v))))"
  by (simp add: buscarPosicoes_def catchError_def http_get_def of_rx_def fun_eq_iff split: sum.splits)

subsection \<open>One event\<close>

lemma passo_LinhasChegam:
  "k < length (pendLinhas st) \<Longrightarrow>
   passo (LinhasChegam k r) st =
     snd (processarLinhas (case r of Inl e \<Rightarrow> JArr [] | Inr v \<Rightarrow> v) (pendLinhas st ! k)
            (st\<lparr>pendLinhas := semIndice k (pendLinhas st), carregando := False\<rparr>))"
  by (simp add: buscarLinhas_emite entregarLinhas_def linhas_next_def)

lemma passo_PosicoesChegam:
  "sid < length (buscas st) \<Longrightarrow> k < length (pendentes (buscas st ! sid)) \<Longrightarrow>
   \<not> toStringLanca (snd (pendentes (buscas st ! sid) ! k)) \<Longrightarrow>
   passo (PosicoesChegam sid k r) st =
     snd (posicoes_next sid (fst (pendentes (buscas st ! sid) ! k))
            (case r of Inl e \<Rightarrow> JObj [(''hr'', JStr []), (''vs'', JArr [])] | Inr v \<Rightarrow> v)
            (atualizar sid (\<lambda>b. b\<lparr>pendentes := semIndice k (pendentes b)\<rparr>) st))"
  by (simp add: buscarPosicoes_emite entregarPosicoes_def)

lemma passo_PosicoesChegam_fora:
  "\<not> (sid < length (buscas st) \<and> k < length (pendentes (buscas st ! sid)) \<and>
      \<not> toStringLanca (snd (pendentes (buscas st ! sid) ! k))) \<Longrightarrow>
   passo (PosicoesChegam sid k r) st = st"
  by (auto simp: buscarPosicoes_def)

lemma passo_coerente: "coerente st \<Longrightarrow> coerente (passo a st)"
proof (cases a)
  case (Digitar s)
  assume "coerente st"
  then show ?thesis using Digitar by (simp add: coerente_def)
next
  case Buscar
  assume "coerente st"
  then show ?thesis using Buscar by (simp add: buscarLinhas_componente_coerente)
next
  case Remover
  assume "coerente st"
  then show ?thesis using Remover by (simp add: removerMarcadores_def limparMarcadores_mantem_coerente)
next
  case (LinhasChegam k r)
  assume c: "coerente st"
  show ?thesis
  proof (cases "k < length (pendLinhas st)")
    case True
    have "coerente (st\<lparr>pendLinhas := semIndice k (pendLinhas st), carregando := False\<rparr>)"
      using c by (simp add: coerente_def)
    then show ?thesis using True LinhasChegam
      by (simp only: passo_LinhasChegam processarLinhas_coerente)
  next
    case False
    then show ?thesis using c LinhasChegam by simp
  qed
next
  case (PosicoesChegam sid k r)
  assume c: "coerente st"
  show ?thesis
  proof (cases "sid < length (buscas st) \<and> k < length (pendentes (buscas st ! sid)) \<and>
        \<not> toStringLanca (snd (pendentes (buscas st ! sid) ! k))")
    case True
    have "coerente (atualizar sid (\<lambda>b. b\<lparr>pendentes := semIndice k (pendentes b)\<rparr>) st)"
      using c by (simp add: coerente_atualizar)
    then show ?thesis using True PosicoesChegam
      by (simp only: passo_PosicoesChegam not_False_eq_True posicoes_next_coerente)
  next
    case False
    show ?thesis unfolding PosicoesChegam passo_PosicoesChegam_fora [OF False] using c by simp
  qed
qed

lemma executar_Cons: "executar (a # as) st = executar as (passo a st)"
  by (simp add: executar_def)

lemma executar_Nil: "executar [] st = st"
  by (simp add: executar_def)

lemma executar_coerente: "coerente st \<Longrightarrow> coerente (executar as st)"
  by (induction as arbitrary: st) (simp_all add: executar_Nil executar_Cons passo_coerente)

lemma pronto_coerente: "coerente pronto"
  by (simp add: coerente_def pronto_def criarMapa_def ngOnInit_def inicial_def)

lemma passo_erros:
  "filter ehErroAoBuscar (efeitos (passo a st)) = filter ehErroAoBuscar (efeitos st)"
proof (cases a)
  case (Digitar s)
  then show ?thesis by simp
next
  case Buscar
  then show ?thesis
    by (simp add: buscarLinhas_componente_def Let_def limparMarcadores_fixos)
next
  case Remover
  then show ?thesis by (simp add: removerMarcadores_def limparMarcadores_fixos)
next
  case (LinhasChegam k r)
  show ?thesis
  proof (cases "k < length (pendLinhas st)")
    case True
    then show ?thesis using LinhasChegam
      by (simp only: passo_LinhasChegam processarLinhas_fixos) simp
  next
    case False
    then show ?thesis using LinhasChegam by simp
  qed
next
  case (PosicoesChegam sid k r)
  show ?thesis
  proof (cases "sid < length (buscas st) \<and> k < length (pendentes (buscas st ! sid)) \<and>
        \<not> toStringLanca (snd (pendentes (buscas st ! sid) ! k))")
    case True
    then show ?thesis using PosicoesChegam
      by (simp only: passo_PosicoesChegam not_False_eq_True posicoes_next_fixos atualizar_campos)
  next
    case False
    show ?thesis unfolding PosicoesChegam passo_PosicoesChegam_fora [OF False] by simp
  qed
qed

lemma executar_erros:
  "filter ehErroAoBuscar (efeitos (executar as st)) = filter ehErroAoBuscar (efeitos st)"
  by (induction as arbitrary: st) (simp_all add: executar_Nil executar_Cons passo_erros)

section \<open>The search subscription and the start of a search\<close>

text \<open>
  C8. The \<^verbatim>\<open>error\<close> callback of the search subscription is never run: the API client's
  \<^verbatim>\<open>buscarLinhas\<close> delivers a value to \<^verbatim>\<open>next\<close> whatever the upstream service answers, so
  that no sequence of events, from any state, makes \<^verbatim>\<open>mostrarErro\<close> open its dialog (the one
  effect every call of \<^verbatim>\<open>mostrarErro\<close> has).
\<close>

theorem erro_da_busca_inalcancavel:
  "(\<exists>linhas. snd (buscarLinhas termo' up) = Inr linhas) \<and>
   filter ehErroAoBuscar (efeitos (executar as st)) = filter ehErroAoBuscar (efeitos st) \<and>
   filter ehErroAoBuscar (efeitos (executar as pronto)) = []"
proof -
  have "filter ehErroAoBuscar (efeitos pronto) = []"
    by (simp add: pronto_def criarMapa_def ngOnInit_def inicial_def)
  then show ?thesis by (simp add: buscarLinhas_emite executar_erros)
qed

theorem erro_da_busca_inalcancavel_witness:
  "snd (buscarLinhas ''8000'' (\<lambda>p. Inl (HttpErrorResponse 500))) = Inr (JArr []) \<and>
   efeitos (executar [Digitar ''8000'', Buscar, LinhasChegam 0 (Inl (HttpErrorResponse 500))] pronto) =
     [Http (Linhas ''8000''), Alert (NenhumaLinha ''8000'')] \<and>
   filter ehErroAoBuscar
     (efeitos (executar [Digitar ''8000'', Buscar, LinhasChegam 0 (Inl (HttpErrorResponse 500))] pronto)) = []"
proof -
  have a: "snd (buscarLinhas ''8000'' (\<lambda>p. Inl (HttpErrorResponse 500))) = Inr (JArr [])"
    by (simp add: buscarLinhas_emite)
  have b: "efeitos (executar [Digitar ''8000'', Buscar, LinhasChegam 0 (Inl (HttpErrorResponse 500))] pronto) =
     [Http (Linhas ''8000''), Alert (NenhumaLinha ''8000'')]"
    by code_simp
  show ?thesis
    using a b erro_da_busca_inalcancavel [of "''8000''" "\<lambda>p. Inl (HttpErrorResponse 500)"
        "[Digitar ''8000'', Buscar, LinhasChegam 0 (Inl (HttpErrorResponse 500))]" pronto]
    by simp
qed

text \<open>
  C7. In every state the component reaches once its map is built, a search whose term is
  not blank starts by removing each marker of \<^verbatim>\<open>marcadoresOnibus\<close> from the map and emptying
  the list, and only then issues the line search: after the handler the list is empty,
  the map holds the tile layer alone, and the effects are the removals, one per marker,
  followed by the request.
\<close>

theorem marcadores_destruidos_ao_buscar:
  assumes "trim (termoBusca (executar as pronto)) \<noteq> []"
  shows "marcadoresOnibus (passo Buscar (executar as pronto)) = [] \<and>
         mapa (passo Buscar (executar as pronto)) = Some [TileLayer] \<and>
         efeitos (passo Buscar (executar as pronto)) =
           efeitos (executar as pronto) @
           map RemoveLayer (marcadoresOnibus (executar as pronto)) @
           [Http (Linhas (trim (termoBusca (executar as pronto))))] \<and>
         mapa (executar as pronto) =
           Some (TileLayer # map MarkerLayer (marcadoresOnibus (executar as pronto)))"
proof -
  let ?st = "executar as pronto"
  let ?ini = "?st\<lparr>carregando := True, ultimoErro := SemErro, totalBuscas := Suc (totalBuscas ?st)\<rparr>"
  have c: "coerente ?st" by (rule executar_coerente [OF pronto_coerente])
  then have c0: "coerente ?ini" by (simp add: coerente_def)
  have m: "mapa ?st \<noteq> None" using c by (simp add: coerente_def)
  show ?thesis
    using assms m c
    by (simp add: buscarLinhas_componente_def Let_def limparMarcadores_coerente [OF c0])
       (simp add: coerente_def)
qed

theorem marcadores_destruidos_ao_buscar_witness:
  "marcadoresOnibus (executar [Digitar ''8000'', Buscar,
       LinhasChegam 0 (Inr (JArr [JObj [(''cl'', JNum 1145)]])),
       PosicoesChegam 0 0 (Inr (JObj [(''hr'', JStr ''10:00''),
          (''vs'', JArr [JObj [(''py'', JNum (-23)), (''px'', JNum (-46))]])]))] pronto) =
     [Marcador 0 (JObj [(''py'', JNum (-23)), (''px'', JNum (-46))]) (JObj [(''cl'', JNum 1145)])] \<and>
   marcadoresOnibus (passo Buscar (executar [Digitar ''8000'', Buscar,
       LinhasChegam 0 (Inr (JArr [JObj [(''cl'', JNum 1145)]])),
       PosicoesChegam 0 0 (Inr (JObj [(''hr'', JStr ''10:00''),
          (''vs'', JArr [JObj [(''py'', JNum (-23)), (''px'', JNum (-46))]])]))] pronto)) = [] \<and>
   mapa (passo Buscar (executar [Digitar ''8000'', Buscar,
       LinhasChegam 0 (Inr (JArr [JObj [(''cl'', JNum 1145)]])),
       PosicoesChegam 0 0 (Inr (JObj [(''hr'', JStr ''10:00''),
          (''vs'', JArr [JObj [(''py'', JNum (-23)), (''px'', JNum (-46))]])]))] pronto)) =
     Some [TileLayer]"
proof -
  let ?as = "[Digitar ''8000'', Buscar,
       LinhasChegam 0 (Inr (JArr [JObj [(''cl'', JNum 1145)]])),
       PosicoesChegam 0 0 (Inr (JObj [(''hr'', JStr ''10:00''),
          (''vs'', JArr [JObj [(''py'', JNum (-23)), (''px'', JNum (-46))]])]))]"
  have t: "trim (termoBusca (executar ?as pronto)) \<noteq> []" by code_simp
  have m: "marcadoresOnibus (executar ?as pronto) =
     [Marcador 0 (JObj [(''py'', JNum (-23)), (''px'', JNum (-46))]) (JObj [(''cl'', JNum 1145)])]"
    by code_simp
  show ?thesis using m marcadores_destruidos_ao_buscar [OF t] by simp
qed

text \<open>
  C1: the code at a failing input. The line search is answered with two lines, the second
  without a code. One position request is issued and it settles with a vehicle. Nothing
  is in flight any more, yet \<^verbatim>\<open>mostrarResultadoFinal\<close> has not been called: the effects end
  with the marker, no dialog follows.
\<close>

theorem resultado_final_nunca_mostrado:
  "pendLinhas (executar [Digitar ''8000'', Buscar,
       LinhasChegam 0 (Inr (JArr [JObj [(''cl'', JNum 1145)], JObj [(''sl'', JNum 1)]])),
       PosicoesChegam 0 0 (Inr (JObj [(''hr'', JStr ''10:00''),
          (''vs'', JArr [JObj [(''py'', JNum (-23)), (''px'', JNum (-46))]])]))] pronto) = [] \<and>
   buscas (executar [Digitar ''8000'', Buscar,
       LinhasChegam 0 (Inr (JArr [JObj [(''cl'', JNum 1145)], JObj [(''sl'', JNum 1)]])),
       PosicoesChegam 0 0 (Inr (JObj [(''hr'', JStr ''10:00''),
          (''vs'', JArr [JObj [(''py'', JNum (-23)), (''px'', JNum (-46))]])]))] pronto) =
     [\<lparr>totalOnibus = 1, linhasProcessadas = 1, totalLinhas = 2, termo = ''8000'',
       pendentes = [], finais = 0\<rparr>] \<and>
   efeitos (executar [Digitar ''8000'', Buscar,
       LinhasChegam 0 (Inr (JArr [JObj [(''cl'', JNum 1145)], JObj [(''sl'', JNum 1)]])),
       PosicoesChegam 0 0 (Inr (JObj [(''hr'', JStr ''10:00''),
          (''vs'', JArr [JObj [(''py'', JNum (-23)), (''px'', JNum (-46))]])]))] pronto) =
     [Http (Linhas ''8000''), Http (PosicaoLinha (JNum 1145)),
      AddTo (Marcador 0 (JObj [(''py'', JNum (-23)), (''px'', JNum (-46))])
               (JObj [(''cl'', JNum 1145)]))]"
  by code_simp


section \<open>Searches without lines\<close>

lemma mutacoes_RemoveLayer: "filter ehMutacao (map RemoveLayer ms) = map RemoveLayer ms"
  by (induction ms) simp_all

text \<open>
  C6, as the code has it. The answer of a line search that holds no line (the empty
  array, or the failure that the API client turns into it) mutates nothing: no call on
  the map, the layers and the list of markers as before. The search as a whole adds no
  marker and does not fit the viewport either, but its handler, once the term and the
  map are validated, removes the markers of the previous search from the map: these
  removals are all its map mutations.
\<close>

theorem busca_sem_linhas_so_remove_anteriores:
  "filter ehMutacao (efeitos (passo (LinhasChegam k (Inr (JArr []))) st)) =
     filter ehMutacao (efeitos st) \<and>
   mapa (passo (LinhasChegam k (Inr (JArr []))) st) = mapa st \<and>
   marcadoresOnibus (passo (LinhasChegam k (Inr (JArr []))) st) = marcadoresOnibus st \<and>
   passo (LinhasChegam k (Inl e)) st = passo (LinhasChegam k (Inr (JArr []))) st \<and>
   filter ehMutacao (efeitos (passo Buscar st)) =
     filter ehMutacao (efeitos st) @
     (if trim (termoBusca st) = [] \<or> mapa st = None then []
      else map RemoveLayer (marcadoresOnibus st))"
proof -
  have a: "passo (LinhasChegam k (Inl e)) st = passo (LinhasChegam k (Inr (JArr []))) st"
    by (simp add: buscarLinhas_emite)
  have b: "filter ehMutacao (efeitos (passo (LinhasChegam k (Inr (JArr []))) st)) =
     filter ehMutacao (efeitos st) \<and>
   mapa (passo (LinhasChegam k (Inr (JArr []))) st) = mapa st \<and>
   marcadoresOnibus (passo (LinhasChegam k (Inr (JArr []))) st) = marcadoresOnibus st"
  proof (cases "k < length (pendLinhas st)")
    case True
    then show ?thesis
      by (simp only: passo_LinhasChegam) (simp add: processarLinhas_def)
  next
    case False
    then show ?thesis by simp
  qed
  have c: "filter ehMutacao (efeitos (passo Buscar st)) =
     filter ehMutacao (efeitos st) @
     (if trim (termoBusca st) = [] \<or> mapa st = None then []
      else map RemoveLayer (marcadoresOnibus st))"
    by (auto simp: buscarLinhas_componente_def Let_def limparMarcadores_def mutacoes_RemoveLayer)
  show ?thesis using a b c by blast
qed

theorem busca_sem_linhas_so_remove_anteriores_witness:
  "filter ehMutacao (efeitos (passo (LinhasChegam 0 (Inr (JArr [])))
      (executar [Digitar ''0000'', Buscar] pronto))) = [] \<and>
   efeitos (passo (LinhasChegam 0 (Inr (JArr []))) (executar [Digitar ''0000'', Buscar] pronto)) =
     [Http (Linhas ''0000''), Alert (NenhumaLinha ''0000'')]"
proof -
  have e: "filter ehMutacao (efeitos (executar [Digitar ''0000'', Buscar] pronto)) = []"
    by code_simp
  have f: "efeitos (passo (LinhasChegam 0 (Inr (JArr []))) (executar [Digitar ''0000'', Buscar] pronto)) =
     [Http (Linhas ''0000''), Alert (NenhumaLinha ''0000'')]"
    by code_simp
  from busca_sem_linhas_so_remove_anteriores
    [of 0 "executar [Digitar ''0000'', Buscar] pronto" "HttpErrorResponse 0"]
  have "filter ehMutacao (efeitos (passo (LinhasChegam 0 (Inr (JArr [])))
      (executar [Digitar ''0000'', Buscar] pronto))) =
     filter ehMutacao (efeitos (executar [Digitar ''0000'', Buscar] pronto))"
    by blast
  with e f show ?thesis by simp
qed

text \<open>
  C6, as stated, fails: a first search leaves a marker on the map; a second search, whose
  line search finds no line, removes that marker from the map.
\<close>

theorem busca_sem_linhas_sem_mutacoes_counterexample:
  "filter ehMutacao (efeitos (executar [Digitar ''8000'', Buscar,
       LinhasChegam 0 (Inr (JArr [JObj [(''cl'', JNum 1145)]])),
       PosicoesChegam 0 0 (Inr (JObj [(''hr'', JStr ''10:00''),
          (''vs'', JArr [JObj [(''py'', JNum (-23)), (''px'', JNum (-46))]])])),
       Digitar ''0000'', Buscar, LinhasChegam 0 (Inr (JArr []))] pronto)) =
   filter ehMutacao (efeitos (executar [Digitar ''8000'', Buscar,
       LinhasChegam 0 (Inr (JArr [JObj [(''cl'', JNum 1145)]])),
       PosicoesChegam 0 0 (Inr (JObj [(''hr'', JStr ''10:00''),
          (''vs'', JArr [JObj [(''py'', JNum (-23)), (''px'', JNum (-46))]])]))] pronto)) @
   [RemoveLayer (Marcador 0 (JObj [(''py'', JNum (-23)), (''px'', JNum (-46))])
                   (JObj [(''cl'', JNum 1145)]))] \<and>
   mapa (executar [Digitar ''8000'', Buscar,
       LinhasChegam 0 (Inr (JArr [JObj [(''cl'', JNum 1145)]])),
       PosicoesChegam 0 0 (Inr (JObj [(''hr'', JStr ''10:00''),
          (''vs'', JArr [JObj [(''py'', JNum (-23)), (''px'', JNum (-46))]])]))] pronto) =
     Some [TileLayer, MarkerLayer (Marcador 0 (JObj [(''py'', JNum (-23)), (''px'', JNum (-46))])
                                     (JObj [(''cl'', JNum 1145)]))] \<and>
   mapa (executar [Digitar ''8000'', Buscar,
       LinhasChegam 0 (Inr (JArr [JObj [(''cl'', JNum 1145)]])),
       PosicoesChegam 0 0 (Inr (JObj [(''hr'', JStr ''10:00''),
          (''vs'', JArr [JObj [(''py'', JNum (-23)), (''px'', JNum (-46))]])])),
       Digitar ''0000'', Buscar, LinhasChegam 0 (Inr (JArr []))] pronto) = Some [TileLayer]"
  by code_simp

section \<open>Markers and the count of buses\<close>

lemma buscarLinhas_componente_buscas:
  "buscas (buscarLinhas_componente st) = buscas st"
  "length (marcadoresOnibus (buscarLinhas_componente st)) \<le> length (marcadoresOnibus st)"
  by (simp_all add: buscarLinhas_componente_def Let_def limparMarcadores_fixos)

lemma passo_propria:
  assumes s: "sid < length (buscas st)"
    and m: "length (marcadoresOnibus st) \<le> totalOnibus (buscas st ! sid)"
    and p: "propria sid a"
  shows "sid < length (buscas (passo a st)) \<and>
         length (marcadoresOnibus (passo a st)) \<le> totalOnibus (buscas (passo a st) ! sid)"
proof (cases a)
  case (Digitar x)
  then show ?thesis using s m by simp
next
  case Buscar
  then show ?thesis
    using s m buscarLinhas_componente_buscas(2) [of st]
    by (simp add: buscarLinhas_componente_buscas(1))
next
  case Remover
  then show ?thesis using s m by (simp add: removerMarcadores_def limparMarcadores_fixos)
next
  case (LinhasChegam k r)
  show ?thesis
  proof (cases "k < length (pendLinhas st)")
    case True
    let ?st0 = "st\<lparr>pendLinhas := semIndice k (pendLinhas st), carregando := False\<rparr>"
    have "sid < length (buscas ?st0)" using s by simp
    then have "sid < length (buscas (snd (processarLinhas v t ?st0))) \<and>
        buscas (snd (processarLinhas v t ?st0)) ! sid = buscas st ! sid" for v t
      using processarLinhas_buscas(1) [of ?st0 v t] processarLinhas_buscas(2) [of sid ?st0 v t]
      by simp
    then show ?thesis using True LinhasChegam m
      by (simp only: passo_LinhasChegam processarLinhas_fixos) simp
  next
    case False
    then show ?thesis using LinhasChegam s m by simp
  qed
next
  case (PosicoesChegam s' k r)
  then have eq: "s' = sid" using p by simp
  show ?thesis
  proof (cases "sid < length (buscas st) \<and> k < length (pendentes (buscas st ! sid)) \<and>
        \<not> toStringLanca (snd (pendentes (buscas st ! sid) ! k))")
    case True
    let ?st0 = "atualizar sid (\<lambda>b. b\<lparr>pendentes := semIndice k (pendentes b)\<rparr>) st"
    let ?linha = "fst (pendentes (buscas st ! sid) ! k)"
    let ?v = "case r of Inl e \<Rightarrow> JObj [(''hr'', JStr []), (''vs'', JArr [])] | Inr v \<Rightarrow> v"
    have l0: "sid < length (buscas ?st0)" using s by (simp add: atualizar_campos)
    have t0: "totalOnibus (buscas ?st0 ! sid) = totalOnibus (buscas st ! sid)"
      using s by (simp add: atualizar_nth)
    from posicoes_next_resumo [OF l0, of ?linha ?v] obtain ms n f where
      h: "marcadoresOnibus (snd (posicoes_next sid ?linha ?v ?st0)) = marcadoresOnibus ?st0 @ ms"
         "length ms \<le> n"
         "buscas (snd (posicoes_next sid ?linha ?v ?st0)) =
           (buscas ?st0)[sid := (buscas ?st0 ! sid)
              \<lparr>totalOnibus := totalOnibus (buscas ?st0 ! sid) + n,
               linhasProcessadas := Suc (linhasProcessadas (buscas ?st0 ! sid)),
               finais := finais (buscas ?st0 ! sid) + f\<rparr>]"
      by blast
    have "passo a st = snd (posicoes_next sid ?linha ?v ?st0)"
      using True PosicoesChegam eq by (simp only: passo_PosicoesChegam not_False_eq_True)
    then show ?thesis using h l0 t0 m by (simp add: atualizar_campos)
  next
    case False
    show ?thesis
      unfolding PosicoesChegam eq passo_PosicoesChegam_fora [OF False] using s m by simp
  qed
qed

lemma executar_propria:
  "sid < length (buscas st) \<Longrightarrow>
   length (marcadoresOnibus st) \<le> totalOnibus (buscas st ! sid) \<Longrightarrow>
   list_all (propria sid) as \<Longrightarrow>
   sid < length (buscas (executar as st)) \<and>
   length (marcadoresOnibus (executar as st)) \<le> totalOnibus (buscas (executar as st) ! sid)"
proof (induction as arbitrary: st)
  case Nil
  then show ?case by (simp add: executar_Nil)
next
  case (Cons a as)
  from Cons.prems have "propria sid a" and r: "list_all (propria sid) as" by simp_all
  with Cons.prems(1,2) have
    "sid < length (buscas (passo a st)) \<and>
     length (marcadoresOnibus (passo a st)) \<le> totalOnibus (buscas (passo a st) ! sid)"
    by (intro passo_propria)
  then show ?case using Cons.IH [of "passo a st"] r by (simp add: executar_Cons)
qed

text \<open>
  C10, as the code has it. From any moment at which \<^verbatim>\<open>marcadoresOnibus\<close> holds at most
  \<^verbatim>\<open>totalOnibus\<close> markers (such as the moment the counters of a search are created, when
  the list has just been cleared), and for as long as no answer to a position request of
  another search is delivered, the number of markers stays at most \<^verbatim>\<open>totalOnibus\<close>. The
  inequality can be strict: a vehicle whose coordinates do not parse is counted and gets
  no marker, as in the search below, which reports two buses and shows one marker.
\<close>

theorem marcadores_no_maximo_totalOnibus:
  assumes "sid < length (buscas st)"
    and "length (marcadoresOnibus st) \<le> totalOnibus (buscas st ! sid)"
    and "list_all (propria sid) as"
  shows "length (marcadoresOnibus (executar as st)) \<le> totalOnibus (buscas (executar as st) ! sid) \<and>
    length (marcadoresOnibus (executar [Digitar ''8000'', Buscar,
       LinhasChegam 0 (Inr (JArr [JObj [(''cl'', JNum 1145)]])),
       PosicoesChegam 0 0 (Inr (JObj [(''hr'', JStr ''10:00''),
          (''vs'', JArr [JObj [(''py'', JNum (-23)), (''px'', JNum (-46))],
                         JObj [(''p'', JNum 11433)]])]))] pronto)) = 1 \<and>
    last (efeitos (executar [Digitar ''8000'', Buscar,
       LinhasChegam 0 (Inr (JArr [JObj [(''cl'', JNum 1145)]])),
       PosicoesChegam 0 0 (Inr (JObj [(''hr'', JStr ''10:00''),
          (''vs'', JArr [JObj [(''py'', JNum (-23)), (''px'', JNum (-46))],
                         JObj [(''p'', JNum 11433)]])]))] pronto)) =
      Alert (Encontrados 2 1 ''8000'')"
proof -
  have a: "length (marcadoresOnibus (executar as st)) \<le> totalOnibus (buscas (executar as st) ! sid)"
    using executar_propria [OF assms] by simp
  have b: "length (marcadoresOnibus (executar [Digitar ''8000'', Buscar,
       LinhasChegam 0 (Inr (JArr [JObj [(''cl'', JNum 1145)]])),
       PosicoesChegam 0 0 (Inr (JObj [(''hr'', JStr ''10:00''),
          (''vs'', JArr [JObj [(''py'', JNum (-23)), (''px'', JNum (-46))],
                         JObj [(''p'', JNum 11433)]])]))] pronto)) = 1"
    by code_simp
  have c: "last (efeitos (executar [Digitar ''8000'', Buscar,
       LinhasChegam 0 (Inr (JArr [JObj [(''cl'', JNum 1145)]])),
       PosicoesChegam 0 0 (Inr (JObj [(''hr'', JStr ''10:00''),
          (''vs'', JArr [JObj [(''py'', JNum (-23)), (''px'', JNum (-46))],
                         JObj [(''p'', JNum 11433)]])]))] pronto)) =
      Alert (Encontrados 2 1 ''8000'')"
    by code_simp
  show ?thesis using a b c by simp
qed

theorem marcadores_no_maximo_totalOnibus_witness:
  "length (marcadoresOnibus (executar
       [PosicoesChegam 0 0 (Inr (JObj [(''hr'', JStr ''10:00''),
          (''vs'', JArr [JObj [(''py'', JNum (-23)), (''px'', JNum (-46))],
                         JObj [(''p'', JNum 11433)]])]))]
       (executar [Digitar ''8000'', Buscar,
          LinhasChegam 0 (Inr (JArr [JObj [(''cl'', JNum 1145)]]))] pronto)))
   \<le> totalOnibus (buscas (executar
       [PosicoesChegam 0 0 (Inr (JObj [(''hr'', JStr ''10:00''),
          (''vs'', JArr [JObj [(''py'', JNum (-23)), (''px'', JNum (-46))],
                         JObj [(''p'', JNum 11433)]])]))]
       (executar [Digitar ''8000'', Buscar,
          LinhasChegam 0 (Inr (JArr [JObj [(''cl'', JNum 1145)]]))] pronto)) ! 0) \<and>
   totalOnibus (buscas (executar
       [PosicoesChegam 0 0 (Inr (JObj [(''hr'', JStr ''10:00''),
          (''vs'', JArr [JObj [(''py'', JNum (-23)), (''px'', JNum (-46))],
                         JObj [(''p'', JNum 11433)]])]))]
       (executar [Digitar ''8000'', Buscar,
          LinhasChegam 0 (Inr (JArr [JObj [(''cl'', JNum 1145)]]))] pronto)) ! 0) = 2"
proof -
  let ?st = "executar [Digitar ''8000'', Buscar,
          LinhasChegam 0 (Inr (JArr [JObj [(''cl'', JNum 1145)]]))] pronto"
  let ?as = "[PosicoesChegam 0 0 (Inr (JObj [(''hr'', JStr ''10:00''),
          (''vs'', JArr [JObj [(''py'', JNum (-23)), (''px'', JNum (-46))],
                         JObj [(''p'', JNum 11433)]])]))]"
  have a: "0 < length (buscas ?st)" by code_simp
  have b: "length (marcadoresOnibus ?st) \<le> totalOnibus (buscas ?st ! 0)" by code_simp
  have c: "list_all (propria 0) ?as" by simp
  have t: "totalOnibus (buscas (executar ?as ?st) ! 0) = 2" by code_simp
  show ?thesis using marcadores_no_maximo_totalOnibus [OF a b c] t by blast
qed

text \<open>
  C10, as stated, fails when searches overlap: the request of a first search is still in
  flight when a second search starts and gets its line; the answer to the first request
  then adds a marker to the list, while the second search, still being processed, has
  counted no bus.
\<close>

theorem marcadores_no_maximo_totalOnibus_counterexample:
  "pendentes (buscas (executar [Digitar ''8000'', Buscar,
       LinhasChegam 0 (Inr (JArr [JObj [(''cl'', JNum 1145)]])),
       Digitar ''9000'', Buscar,
       LinhasChegam 0 (Inr (JArr [JObj [(''cl'', JNum 33000)]])),
       PosicoesChegam 0 0 (Inr (JObj [(''hr'', JStr ''10:00''),
          (''vs'', JArr [JObj [(''py'', JNum (-23)), (''px'', JNum (-46))]])]))] pronto) ! 1) =
     [(JObj [(''cl'', JNum 33000)], JNum 33000)] \<and>
   \<not> length (marcadoresOnibus (executar [Digitar ''8000'', Buscar,
       LinhasChegam 0 (Inr (JArr [JObj [(''cl'', JNum 1145)]])),
       Digitar ''9000'', Buscar,
       LinhasChegam 0 (Inr (JArr [JObj [(''cl'', JNum 33000)]])),
       PosicoesChegam 0 0 (Inr (JObj [(''hr'', JStr ''10:00''),
          (''vs'', JArr [JObj [(''py'', JNum (-23)), (''px'', JNum (-46))]])]))] pronto))
     \<le> totalOnibus (buscas (executar [Digitar ''8000'', Buscar,
       LinhasChegam 0 (Inr (JArr [JObj [(''cl'', JNum 1145)]])),
       Digitar ''9000'', Buscar,
       LinhasChegam 0 (Inr (JArr [JObj [(''cl'', JNum 33000)]])),
       PosicoesChegam 0 0 (Inr (JObj [(''hr'', JStr ''10:00''),
          (''vs'', JArr [JObj [(''py'', JNum (-23)), (''px'', JNum (-46))]])]))] pronto) ! 1)"
  by code_simp

section \<open>The delivery of an answer on which the traversal of the vehicles does not throw\<close>

lemma sem_veiculos:
  "\<not> (truthy vs \<and> isArray vs \<and> 0 < length (elementos vs)) \<Longrightarrow> elementos vs = []"
  by (cases vs) auto

lemma paraCadaOnibus_mapa:
  "(mapa (snd (paraCadaOnibus sid linha vs st)) = None) = (mapa st = None)"
proof (induction vs arbitrary: st)
  case Nil
  show ?case by simp
next
  case (Cons onibus resto)
  show ?case
    by (cases rule: adicionarMarcador_casos [of onibus linha st])
       (auto simp: Cons.IH atualizar_campos split: option.splits)
qed

text \<open>When the statement that ends each branch of the callbacks throws.\<close>

lemma seUltimaLinha_lanca:
  "(fst (seUltimaLinha sid st) = None) =
     (linhasProcessadas (buscas st ! sid) \<noteq> totalLinhas (buscas st ! sid) \<or>
      totalOnibus (buscas st ! sid) = 0 \<or>
      leaflet st \<and> mapa st \<noteq> None \<and> marcadoresOnibus st \<noteq> [])"
  by (auto simp: seUltimaLinha_def Let_def mostrarResultadoFinal_def atualizar_campos)

lemma posicoes_next_sem_excecao:
  assumes "\<not> nullish posicoes"
    and "fst (paraCadaOnibus sid linha (elementos (campo posicoes ''vs''))
           (atualizar sid (\<lambda>b. b\<lparr>linhasProcessadas := Suc (linhasProcessadas b)\<rparr>) st)) = None"
  shows "posicoes_next sid linha posicoes st =
     seUltimaLinha sid
       (snd (paraCadaOnibus sid linha (elementos (campo posicoes ''vs''))
          (atualizar sid (\<lambda>b. b\<lparr>linhasProcessadas := Suc (linhasProcessadas b)\<rparr>) st)))"
proof (cases "truthy (campo posicoes ''vs'') \<and> isArray (campo posicoes ''vs'') \<and>
    0 < length (elementos (campo posicoes ''vs''))")
  case True
  then show ?thesis
    using assms
    by (cases "paraCadaOnibus sid linha (elementos (campo posicoes ''vs''))
           (atualizar sid (\<lambda>b. b\<lparr>linhasProcessadas := Suc (linhasProcessadas b)\<rparr>) st)")
       (simp add: posicoes_next_def Let_def)
next
  case False
  then have "elementos (campo posicoes ''vs'') = []" by (rule sem_veiculos)
  then show ?thesis using False assms(1) by (simp add: posicoes_next_def Let_def)
qed

text \<open>
  Everything that the delivery of an answer to the call \<open>sid\<close> changes, when the payload
  has properties and no exception ends the traversal of its vehicles: \<open>ms\<close> are the
  markers it adds. The last clause says when no exception leaves the callback at all.
\<close>

lemma entrega_geral:
  assumes s: "sid < length (buscas st)"
    and k: "k < length (pendentes (buscas st ! sid))"
    and c: "\<not> toStringLanca (snd (pendentes (buscas st ! sid) ! k))"
    and nv: "\<not> nullish (case r of Inl e \<Rightarrow> JObj [(''hr'', JStr []), (''vs'', JArr [])] | Inr v \<Rightarrow> v)"
    and nl0: "fst (paraCadaOnibus sid (fst (pendentes (buscas st ! sid) ! k))
                (elementos (campo (case r of Inl e \<Rightarrow> JObj [(''hr'', JStr []), (''vs'', JArr [])] | Inr v \<Rightarrow> v) ''vs''))
                (atualizar sid (\<lambda>b. b\<lparr>linhasProcessadas := Suc (linhasProcessadas b)\<rparr>)
                   (atualizar sid (\<lambda>b. b\<lparr>pendentes := semIndice k (pendentes b)\<rparr>) st))) = None"
  shows "\<exists>ms.
     marcadoresOnibus (passo (PosicoesChegam sid k r) st) = marcadoresOnibus st @ ms \<and>
     length ms \<le> length (elementos (campo (case r of Inl e \<Rightarrow> JObj [(''hr'', JStr []), (''vs'', JArr [])] | Inr v \<Rightarrow> v) ''vs'')) \<and>
     totalOnibus (buscas (passo (PosicoesChegam sid k r) st) ! sid) =
       totalOnibus (buscas st ! sid) +
       length (elementos (campo (case r of Inl e \<Rightarrow> JObj [(''hr'', JStr []), (''vs'', JArr [])] | Inr v \<Rightarrow> v) ''vs'')) \<and>
     linhasProcessadas (buscas (passo (PosicoesChegam sid k r) st) ! sid) =
       Suc (linhasProcessadas (buscas st ! sid)) \<and>
     totalLinhas (buscas (passo (PosicoesChegam sid k r) st) ! sid) = totalLinhas (buscas st ! sid) \<and>
     termo (buscas (passo (PosicoesChegam sid k r) st) ! sid) = termo (buscas st ! sid) \<and>
     pendentes (buscas (passo (PosicoesChegam sid k r) st) ! sid) =
       semIndice k (pendentes (buscas st ! sid)) \<and>
     finais (buscas (passo (PosicoesChegam sid k r) st) ! sid) =
       finais (buscas st ! sid) +
       (if Suc (linhasProcessadas (buscas st ! sid)) = totalLinhas (buscas st ! sid) then 1 else 0) \<and>
     efeitos (passo (PosicoesChegam sid k r) st) =
       efeitos st @ map AddTo ms @
       (if Suc (linhasProcessadas (buscas st ! sid)) \<noteq> totalLinhas (buscas st ! sid) then []
        else if totalOnibus (buscas (passo (PosicoesChegam sid k r) st) ! sid) = 0
        then [Alert (NenhumAtivo (totalLinhas (buscas st ! sid)) (termo (buscas st ! sid)))]
        else if leaflet st \<and> mapa st \<noteq> None \<and> marcadoresOnibus st @ ms \<noteq> []
        then [FitBounds (marcadoresOnibus st @ ms),
              Alert (Encontrados (totalOnibus (buscas (passo (PosicoesChegam sid k r) st) ! sid))
                       (totalLinhas (buscas st ! sid)) (termo (buscas st ! sid)))]
        else []) \<and>
     (excecaoDaEntrega sid k r st = None) =
       (Suc (linhasProcessadas (buscas st ! sid)) \<noteq> totalLinhas (buscas st ! sid) \<or>
        totalOnibus (buscas (passo (PosicoesChegam sid k r) st) ! sid) = 0 \<or>
        leaflet st \<and> mapa st \<noteq> None \<and> marcadoresOnibus st @ ms \<noteq> [])"
proof -
  let ?v = "case r of Inl e \<Rightarrow> JObj [(''hr'', JStr []), (''vs'', JArr [])] | Inr v \<Rightarrow> v"
  let ?vs = "elementos (campo ?v ''vs'')"
  let ?linha = "fst (pendentes (buscas st ! sid) ! k)"
  let ?s0 = "atualizar sid (\<lambda>b. b\<lparr>pendentes := semIndice k (pendentes b)\<rparr>) st"
  let ?s1 = "atualizar sid (\<lambda>b. b\<lparr>linhasProcessadas := Suc (linhasProcessadas b)\<rparr>) ?s0"
  let ?b = "buscas st ! sid"
  define s1 where "s1 = ?s1"
  define s2 where "s2 = snd (paraCadaOnibus sid ?linha ?vs s1)"
  define n where "n = length ?vs"
  have nl: "fst (paraCadaOnibus sid ?linha ?vs s1) = None"
    using nl0 unfolding s1_def .
  have p: "passo (PosicoesChegam sid k r) st = snd (seUltimaLinha sid s2)"
    using s k c posicoes_next_sem_excecao [OF nv nl0]
    unfolding s2_def s1_def by (simp only: passo_PosicoesChegam not_False_eq_True)
  have fix1: "marcadoresOnibus s1 = marcadoresOnibus st" "efeitos s1 = efeitos st"
    "leaflet s1 = leaflet st" "mapa s1 = mapa st"
    by (simp_all add: s1_def atualizar_campos)
  have len1: "sid < length (buscas s1)" using s by (simp add: s1_def atualizar_campos)
  have b1: "buscas s1 ! sid =
      ?b\<lparr>pendentes := semIndice k (pendentes ?b), linhasProcessadas := Suc (linhasProcessadas ?b)\<rparr>"
    using s by (simp add: s1_def atualizar_nth atualizar_campos)
  from paraCadaOnibus_resumo [of sid ?linha ?vs s1] nl obtain ms where
    m2: "marcadoresOnibus s2 = marcadoresOnibus st @ ms"
    and e2: "efeitos s2 = efeitos st @ map AddTo ms"
    and lm: "length ms \<le> n"
    and b2: "buscas s2 = (buscas s1)[sid := (buscas s1 ! sid)
               \<lparr>totalOnibus := totalOnibus (buscas s1 ! sid) + n\<rparr>]"
    unfolding s2_def n_def fix1 [symmetric] by auto
  have c2: "buscas s2 ! sid = (buscas s1 ! sid)\<lparr>totalOnibus := totalOnibus (buscas s1 ! sid) + n\<rparr>"
    unfolding b2 using len1 by simp
  have len2: "sid < length (buscas s2)" unfolding b2 using len1 by simp
  have f2: "leaflet s2 = leaflet st" "(mapa s2 = None) = (mapa st = None)"
    unfolding s2_def fix1 [symmetric] by (simp_all add: paraCadaOnibus_fixos paraCadaOnibus_mapa)
  have g2:
    "totalOnibus (buscas s2 ! sid) = totalOnibus ?b + n"
    "linhasProcessadas (buscas s2 ! sid) = Suc (linhasProcessadas ?b)"
    "totalLinhas (buscas s2 ! sid) = totalLinhas ?b"
    "termo (buscas s2 ! sid) = termo ?b"
    "pendentes (buscas s2 ! sid) = semIndice k (pendentes ?b)"
    "finais (buscas s2 ! sid) = finais ?b"
    unfolding c2 b1 by simp_all
  have campos:
    "totalOnibus (buscas (snd (seUltimaLinha sid s2)) ! sid) = totalOnibus ?b + n"
    "linhasProcessadas (buscas (snd (seUltimaLinha sid s2)) ! sid) = Suc (linhasProcessadas ?b)"
    "totalLinhas (buscas (snd (seUltimaLinha sid s2)) ! sid) = totalLinhas ?b"
    "termo (buscas (snd (seUltimaLinha sid s2)) ! sid) = termo ?b"
    "pendentes (buscas (snd (seUltimaLinha sid s2)) ! sid) = semIndice k (pendentes ?b)"
    "finais (buscas (snd (seUltimaLinha sid s2)) ! sid) =
       finais ?b + (if Suc (linhasProcessadas ?b) = totalLinhas ?b then 1 else 0)"
    using len2 by (simp_all add: seUltimaLinha_buscas g2)
  have ef: "efeitos (snd (seUltimaLinha sid s2)) =
       efeitos st @ map AddTo ms @
       (if Suc (linhasProcessadas ?b) \<noteq> totalLinhas ?b then []
        else if totalOnibus ?b + n = 0
        then [Alert (NenhumAtivo (totalLinhas ?b) (termo ?b))]
        else if leaflet st \<and> mapa st \<noteq> None \<and> marcadoresOnibus st @ ms \<noteq> []
        then [FitBounds (marcadoresOnibus st @ ms),
              Alert (Encontrados (totalOnibus ?b + n) (totalLinhas ?b) (termo ?b))]
        else [])"
    unfolding seUltimaLinha_efeitos g2 m2 e2 f2 by auto
  have ex: "excecaoDaEntrega sid k r st = fst (seUltimaLinha sid s2)"
    using c posicoes_next_sem_excecao [OF nv nl0] unfolding s2_def s1_def
    by (simp add: excecaoDaEntrega_def buscarPosicoes_emite entregarPosicoes_def)
  have exs: "(fst (seUltimaLinha sid s2) = None) =
       (Suc (linhasProcessadas ?b) \<noteq> totalLinhas ?b \<or> totalOnibus ?b + n = 0 \<or>
        leaflet st \<and> mapa st \<noteq> None \<and> marcadoresOnibus st @ ms \<noteq> [])"
    unfolding seUltimaLinha_lanca g2 m2 f2 by auto
  show ?thesis
    unfolding p campos ef ex exs seUltimaLinha_fixos m2 n_def [symmetric]
    by (rule exI [of _ ms]) (simp add: lm)
qed

section \<open>Every reachable state is sound\<close>

lemma pendentes_atualizar:
  assumes "list_all (\<lambda>b. list_all pendenteOk (pendentes b)) (buscas st)"
    and "\<And>b. list_all pendenteOk (pendentes b) \<Longrightarrow>
              list_all pendenteOk (pendentes (f b))"
  shows "list_all (\<lambda>b. list_all pendenteOk (pendentes b)) (buscas (atualizar sid f st))"
proof (cases "sid < length (buscas st)")
  case True
  then have "list_all pendenteOk (pendentes (buscas st ! sid))"
    using assms(1) by (simp add: list_all_length)
  then have "list_all pendenteOk (pendentes (f (buscas st ! sid)))"
    by (rule assms(2))
  then show ?thesis
    using assms(1) set_update_subset_insert [of "buscas st" sid "f (buscas st ! sid)"]
    by (auto simp: buscas_atualizar list_all_iff)
next
  case False
  then show ?thesis using assms(1) by (simp add: buscas_atualizar list_update_beyond)
qed

lemma semIndice_set: "set (semIndice k xs) \<subseteq> set xs"
  using set_take_subset [of k xs] set_drop_subset [of "Suc k" xs]
  by (auto simp: semIndice_def)

lemma semIndice_length: "k < length xs \<Longrightarrow> Suc (length (semIndice k xs)) = length xs"
  by (auto simp: semIndice_def)

lemma pendentes_posicoes_next:
  assumes "list_all (\<lambda>b. list_all pendenteOk (pendentes b)) (buscas st)"
    and "sid < length (buscas st)"
  shows "list_all (\<lambda>b. list_all pendenteOk (pendentes b))
           (buscas (snd (posicoes_next sid linha posicoes st)))"
proof -
  from posicoes_next_resumo [OF assms(2), of linha posicoes] obtain n f where
    b: "buscas (snd (posicoes_next sid linha posicoes st)) =
       (buscas st)[sid := (buscas st ! sid)
          \<lparr>totalOnibus := totalOnibus (buscas st ! sid) + n,
           linhasProcessadas := Suc (linhasProcessadas (buscas st ! sid)),
           finais := finais (buscas st ! sid) + f\<rparr>]"
    by blast
  let ?g = "\<lambda>b. b\<lparr>totalOnibus := totalOnibus b + n,
           linhasProcessadas := Suc (linhasProcessadas b), finais := finais b + f\<rparr>"
  have "list_all (\<lambda>b. list_all pendenteOk (pendentes b)) (buscas (atualizar sid ?g st))"
    using assms(1) by (rule pendentes_atualizar) simp
  then show ?thesis unfolding b by (simp add: buscas_atualizar)
qed

lemma pendentes_despachar:
  "list_all (\<lambda>b. list_all pendenteOk (pendentes b)) (buscas st) \<Longrightarrow>
   list_all (\<lambda>b. list_all pendenteOk (pendentes b)) (buscas (snd (despachar sid ls st)))"
proof (induction ls arbitrary: st)
  case Nil
  then show ?case by simp
next
  case (Cons linha resto)
  show ?case
  proof (cases "codigoLinha linha")
    case (Inl x)
    then show ?thesis using Cons.prems by simp
  next
    case (Inr codigo)
    then have nn: "\<not> nullish linha" by (auto simp: codigoLinha_def split: if_splits)
    show ?thesis
    proof (cases "toStringLanca codigo")
      case True
      then show ?thesis using Inr Cons.prems by simp
    next
      case False
      let ?st' = "atualizar sid (\<lambda>b. b\<lparr>pendentes := pendentes b @ [(linha, codigo)]\<rparr>)
                    (st\<lparr>efeitos := efeitos st @ [Http (PosicaoLinha codigo)]\<rparr>)"
      have ok: "pendenteOk (linha, codigo)" using nn False by (simp add: pendenteOk_def)
      have "list_all (\<lambda>b. list_all pendenteOk (pendentes b)) (buscas ?st')"
        by (rule pendentes_atualizar) (use Cons.prems ok in simp_all)
      then show ?thesis using Inr False Cons.prems Cons.IH by (simp add: buscarPosicoes_def)
    qed
  qed
qed

lemma integro_passo: "integro st \<Longrightarrow> integro (passo a st)"
proof -
  assume i: "integro st"
  then have c: "coerente (passo a st)" by (simp add: integro_def passo_coerente)
  from i have q: "list_all (\<lambda>b. list_all pendenteOk (pendentes b)) (buscas st)"
    by (simp add: integro_def)
  have "list_all (\<lambda>b. list_all pendenteOk (pendentes b)) (buscas (passo a st))"
  proof (cases a)
    case (Digitar s)
    then show ?thesis using q by simp
  next
    case Buscar
    then show ?thesis using q
      by (simp add: buscarLinhas_componente_def Let_def limparMarcadores_fixos)
  next
    case Remover
    then show ?thesis using q by (simp add: removerMarcadores_def limparMarcadores_fixos)
  next
    case (LinhasChegam k r)
    show ?thesis
    proof (cases "k < length (pendLinhas st)")
      case True
      let ?st0 = "st\<lparr>pendLinhas := semIndice k (pendLinhas st), carregando := False\<rparr>"
      have "list_all (\<lambda>b. list_all pendenteOk (pendentes b))
              (buscas (snd (processarLinhas v t ?st0)))" for v t
        using q by (simp add: processarLinhas_def pendentes_despachar)
      then show ?thesis using True LinhasChegam by (simp only: passo_LinhasChegam)
    next
      case False
      then show ?thesis using q LinhasChegam by simp
    qed
  next
    case (PosicoesChegam sid k r)
    show ?thesis
    proof (cases "sid < length (buscas st) \<and> k < length (pendentes (buscas st ! sid)) \<and>
        \<not> toStringLanca (snd (pendentes (buscas st ! sid) ! k))")
      case True
      let ?st0 = "atualizar sid (\<lambda>b. b\<lparr>pendentes := semIndice k (pendentes b)\<rparr>) st"
      have q0: "list_all (\<lambda>b. list_all pendenteOk (pendentes b)) (buscas ?st0)"
        using q
      proof (rule pendentes_atualizar)
        fix b :: busca
        assume "list_all pendenteOk (pendentes b)"
        then show "list_all pendenteOk (pendentes (b\<lparr>pendentes := semIndice k (pendentes b)\<rparr>))"
          using semIndice_set [of k "pendentes b"] by (auto simp: list_all_iff)
      qed
      have l0: "sid < length (buscas ?st0)" using True by (simp add: atualizar_campos)
      show ?thesis using True PosicoesChegam pendentes_posicoes_next [OF q0 l0]
        by (simp only: passo_PosicoesChegam not_False_eq_True)
    next
      case False
      show ?thesis unfolding PosicoesChegam passo_PosicoesChegam_fora [OF False] using q by simp
    qed
  qed
  with c show ?thesis by (simp add: integro_def)
qed

lemma integro_executar: "integro st \<Longrightarrow> integro (executar as st)"
  by (induction as arbitrary: st) (simp_all add: executar_Nil executar_Cons integro_passo)

lemma integro_pronto: "integro pronto"
  using pronto_coerente by (simp add: integro_def) (simp add: pronto_def criarMapa_def ngOnInit_def inicial_def)

lemma integro_linha:
  "integro st \<Longrightarrow> sid < length (buscas st) \<Longrightarrow> k < length (pendentes (buscas st ! sid)) \<Longrightarrow>
   \<not> nullish (fst (pendentes (buscas st ! sid) ! k)) \<and>
   \<not> toStringLanca (snd (pendentes (buscas st ! sid) ! k))"
  by (simp add: integro_def list_all_length pendenteOk_def)

section \<open>Failures of position requests\<close>

lemma emDia_entrega:
  assumes s: "sid < length (buscas st)"
    and k: "k < length (pendentes (buscas st ! sid))"
    and c: "\<not> toStringLanca (snd (pendentes (buscas st ! sid) ! k))"
    and nv: "\<not> nullish (case r of Inl e \<Rightarrow> JObj [(''hr'', JStr []), (''vs'', JArr [])] | Inr v \<Rightarrow> v)"
    and nl: "fst (paraCadaOnibus sid (fst (pendentes (buscas st ! sid) ! k))
                (elementos (campo (case r of Inl e \<Rightarrow> JObj [(''hr'', JStr []), (''vs'', JArr [])] | Inr v \<Rightarrow> v) ''vs''))
                (atualizar sid (\<lambda>b. b\<lparr>linhasProcessadas := Suc (linhasProcessadas b)\<rparr>)
                   (atualizar sid (\<lambda>b. b\<lparr>pendentes := semIndice k (pendentes b)\<rparr>) st))) = None"
    and d: "emDia (buscas st ! sid)"
  shows "emDia (buscas (passo (PosicoesChegam sid k r) st) ! sid)"
proof -
  let ?b = "buscas st ! sid"
  let ?b' = "buscas (passo (PosicoesChegam sid k r) st) ! sid"
  from entrega_geral [OF s k c nv nl] have
    h: "linhasProcessadas ?b' = Suc (linhasProcessadas ?b)"
       "totalLinhas ?b' = totalLinhas ?b"
       "pendentes ?b' = semIndice k (pendentes ?b)"
       "finais ?b' = finais ?b +
          (if Suc (linhasProcessadas ?b) = totalLinhas ?b then 1 else 0)"
    by blast+
  have n: "Suc (length (semIndice k (pendentes ?b))) = length (pendentes ?b)"
    using k by (rule semIndice_length)
  have q: "list_all (\<lambda>p. \<not> nullish (fst p)) (semIndice k (pendentes ?b))"
    using d semIndice_set [of k "pendentes ?b"] by (auto simp: emDia_def list_all_iff)
  show ?thesis
    using d n q k unfolding emDia_def h by (auto split: if_splits)
qed

lemma falha_igual_ao_callback_de_erro:
  assumes "sid < length (buscas st)" and "k < length (pendentes (buscas st ! sid))"
    and "\<not> toStringLanca (snd (pendentes (buscas st ! sid) ! k))"
  shows "passo (PosicoesChegam sid k (Inl e)) st =
     snd (posicoes_error sid (fst (pendentes (buscas st ! sid) ! k)) e'
            (atualizar sid (\<lambda>b. b\<lparr>pendentes := semIndice k (pendentes b)\<rparr>) st))"
  using assms
  by (simp only: passo_PosicoesChegam not_False_eq_True) (simp add: posicoes_next_def posicoes_error_def Let_def)

text \<open>
  C5. In every reachable state, a position request in flight that fails, whether the
  failure reaches the component through the API client (which turns it into the empty
  payload) or through the \<^verbatim>\<open>error\<close> callback itself (the two have the same outcome): the
  line is counted as processed, no vehicle is counted, the list of markers and the
  layers of the map are unchanged, the other requests of the search stay in flight, the
  final result is shown at this very step exactly if this was the last line to be
  counted, and a bookkeeping that was in step stays in step, so that the result is
  reported when the other lines settle.
\<close>

theorem falha_conta_sem_marcadores:
  assumes "st = executar as pronto"
    and "sid < length (buscas st)"
    and "k < length (pendentes (buscas st ! sid))"
    and "st' = passo (PosicoesChegam sid k (Inl e)) st"
  shows "st' = snd (posicoes_error sid (fst (pendentes (buscas st ! sid) ! k)) e
                 (atualizar sid (\<lambda>b. b\<lparr>pendentes := semIndice k (pendentes b)\<rparr>) st)) \<and>
    linhasProcessadas (buscas st' ! sid) = Suc (linhasProcessadas (buscas st ! sid)) \<and>
    totalOnibus (buscas st' ! sid) = totalOnibus (buscas st ! sid) \<and>
    marcadoresOnibus st' = marcadoresOnibus st \<and>
    mapa st' = mapa st \<and>
    pendentes (buscas st' ! sid) = semIndice k (pendentes (buscas st ! sid)) \<and>
    finais (buscas st' ! sid) =
      finais (buscas st ! sid) +
      (if Suc (linhasProcessadas (buscas st ! sid)) = totalLinhas (buscas st ! sid) then 1 else 0) \<and>
    (emDia (buscas st ! sid) \<longrightarrow> emDia (buscas st' ! sid))"
proof -
  have i: "integro st" unfolding assms(1) by (rule integro_executar [OF integro_pronto])
  have q: "\<not> toStringLanca (snd (pendentes (buscas st ! sid) ! k))"
    using integro_linha [OF i assms(2,3)] by simp
  have nv: "\<not> nullish (case (Inl e :: erro + jsval) of
               Inl e \<Rightarrow> JObj [(''hr'', JStr []), (''vs'', JArr [])] | Inr v \<Rightarrow> v)"
    by simp
  have nl: "fst (paraCadaOnibus sid (fst (pendentes (buscas st ! sid) ! k))
                (elementos (campo (case (Inl e :: erro + jsval) of
                   Inl e \<Rightarrow> JObj [(''hr'', JStr []), (''vs'', JArr [])] | Inr v \<Rightarrow> v) ''vs''))
                (atualizar sid (\<lambda>b. b\<lparr>linhasProcessadas := Suc (linhasProcessadas b)\<rparr>)
                   (atualizar sid (\<lambda>b. b\<lparr>pendentes := semIndice k (pendentes b)\<rparr>) st))) = None"
    by simp
  from entrega_geral [OF assms(2,3) q nv nl] obtain ms where
    h: "marcadoresOnibus st' = marcadoresOnibus st @ ms" "length ms \<le> 0"
       "totalOnibus (buscas st' ! sid) = totalOnibus (buscas st ! sid)"
       "linhasProcessadas (buscas st' ! sid) = Suc (linhasProcessadas (buscas st ! sid))"
       "pendentes (buscas st' ! sid) = semIndice k (pendentes (buscas st ! sid))"
       "finais (buscas st' ! sid) = finais (buscas st ! sid) +
         (if Suc (linhasProcessadas (buscas st ! sid)) = totalLinhas (buscas st ! sid) then 1 else 0)"
    unfolding assms(4) by auto
  have m: "marcadoresOnibus st' = marcadoresOnibus st" using h(1,2) by simp
  have "coerente st" "coerente st'"
    using i integro_passo [OF i, of "PosicoesChegam sid k (Inl e)"]
    by (simp_all add: integro_def assms(4))
  then have mp: "mapa st' = mapa st" using m by (simp add: coerente_def)
  have d: "emDia (buscas st ! sid) \<longrightarrow> emDia (buscas st' ! sid)"
    unfolding assms(4) using emDia_entrega [OF assms(2,3) q nv nl] by blast
  have c: "st' = snd (posicoes_error sid (fst (pendentes (buscas st ! sid) ! k)) e
                 (atualizar sid (\<lambda>b. b\<lparr>pendentes := semIndice k (pendentes b)\<rparr>) st))"
    unfolding assms(4) using assms(2,3) q by (rule falha_igual_ao_callback_de_erro)
  show ?thesis using c h(3,4,5,6) m mp d by blast
qed

theorem falha_conta_sem_marcadores_witness:
  "buscas (passo (PosicoesChegam 0 0 (Inl (HttpErrorResponse 500)))
      (executar [Digitar ''8000'', Buscar,
         LinhasChegam 0 (Inr (JArr [JObj [(''cl'', JNum 1145)], JObj [(''cl'', JNum 33000)]]))] pronto)) =
     [\<lparr>totalOnibus = 0, linhasProcessadas = 1, totalLinhas = 2, termo = ''8000'',
       pendentes = [(JObj [(''cl'', JNum 33000)], JNum 33000)], finais = 0\<rparr>] \<and>
   marcadoresOnibus (passo (PosicoesChegam 0 0 (Inl (HttpErrorResponse 500)))
      (executar [Digitar ''8000'', Buscar,
         LinhasChegam 0 (Inr (JArr [JObj [(''cl'', JNum 1145)], JObj [(''cl'', JNum 33000)]]))] pronto)) = [] \<and>
   emDia (buscas (passo (PosicoesChegam 0 0 (Inl (HttpErrorResponse 500)))
      (executar [Digitar ''8000'', Buscar,
         LinhasChegam 0 (Inr (JArr [JObj [(''cl'', JNum 1145)], JObj [(''cl'', JNum 33000)]]))] pronto)) ! 0) \<and>
   efeitos (executar [Digitar ''8000'', Buscar,
         LinhasChegam 0 (Inr (JArr [JObj [(''cl'', JNum 1145)], JObj [(''cl'', JNum 33000)]])),
         PosicoesChegam 0 0 (Inl (HttpErrorResponse 500)),
         PosicoesChegam 0 0 (Inr (JObj [(''hr'', JStr ''10:00''),
            (''vs'', JArr [JObj [(''py'', JNum (-23)), (''px'', JNum (-46))]])]))] pronto) =
     [Http (Linhas ''8000''), Http (PosicaoLinha (JNum 1145)), Http (PosicaoLinha (JNum 33000)),
      AddTo (Marcador 0 (JObj [(''py'', JNum (-23)), (''px'', JNum (-46))]) (JObj [(''cl'', JNum 33000)])),
      FitBounds [Marcador 0 (JObj [(''py'', JNum (-23)), (''px'', JNum (-46))]) (JObj [(''cl'', JNum 33000)])],
      Alert (Encontrados 1 2 ''8000'')]"
proof -
  let ?as = "[Digitar ''8000'', Buscar,
         LinhasChegam 0 (Inr (JArr [JObj [(''cl'', JNum 1145)], JObj [(''cl'', JNum 33000)]]))]"
  let ?st = "executar ?as pronto"
  let ?st' = "passo (PosicoesChegam 0 0 (Inl (HttpErrorResponse 500))) ?st"
  have a: "0 < length (buscas ?st)" by code_simp
  have b: "0 < length (pendentes (buscas ?st ! 0))" by code_simp
  have d: "emDia (buscas ?st ! 0)" by code_simp
  have m: "marcadoresOnibus ?st = []" by code_simp
  have bs: "buscas ?st' =
     [\<lparr>totalOnibus = 0, linhasProcessadas = 1, totalLinhas = 2, termo = ''8000'',
       pendentes = [(JObj [(''cl'', JNum 33000)], JNum 33000)], finais = 0\<rparr>]"
    by code_simp
  have e: "efeitos (executar [Digitar ''8000'', Buscar,
         LinhasChegam 0 (Inr (JArr [JObj [(''cl'', JNum 1145)], JObj [(''cl'', JNum 33000)]])),
         PosicoesChegam 0 0 (Inl (HttpErrorResponse 500)),
         PosicoesChegam 0 0 (Inr (JObj [(''hr'', JStr ''10:00''),
            (''vs'', JArr [JObj [(''py'', JNum (-23)), (''px'', JNum (-46))]])]))] pronto) =
     [Http (Linhas ''8000''), Http (PosicaoLinha (JNum 1145)), Http (PosicaoLinha (JNum 33000)),
      AddTo (Marcador 0 (JObj [(''py'', JNum (-23)), (''px'', JNum (-46))]) (JObj [(''cl'', JNum 33000)])),
      FitBounds [Marcador 0 (JObj [(''py'', JNum (-23)), (''px'', JNum (-46))]) (JObj [(''cl'', JNum 33000)])],
      Alert (Encontrados 1 2 ''8000'')]"
    by code_simp
  from falha_conta_sem_marcadores [OF refl a b refl, of "HttpErrorResponse 500"]
  have "marcadoresOnibus ?st' = marcadoresOnibus ?st"
    and "emDia (buscas ?st ! 0) \<longrightarrow> emDia (buscas ?st' ! 0)"
    by blast+
  with d m bs e show ?thesis by simp
qed

section \<open>The operations of the API client\<close>














section \<open>The fan-out of a search\<close>






text \<open>
  Outside that condition the traversal of the lines can end early: the code \<^verbatim>\<open>{toString: 1}\<close>
  of a first line makes the log template throw, and the second line, which has a code,
  gets no request.
\<close>

lemma fan_out_interrompido:
  "filter ehPedidoPosicao
     (efeitos (executar [Digitar ''8000'', Buscar,
        LinhasChegam 0 (Inr (JArr [JObj [(''cl'', JObj [(''toString'', JNum 1)])],
                                   JObj [(''cl'', JNum 1145)]]))] pronto)) = []"
  by code_simp

section \<open>The final result\<close>

text \<open>What follows from the fact that no exception leaves the callback.\<close>

lemma excecaoDaEntrega_None:
  assumes "excecaoDaEntrega sid k r st = None"
  shows "\<not> toStringLanca (snd (pendentes (buscas st ! sid) ! k))"
    and "\<not> nullish (case r of Inl e \<Rightarrow> JObj [(''hr'', JStr []), (''vs'', JArr [])] | Inr v \<Rightarrow> v)"
    and "fst (paraCadaOnibus sid (fst (pendentes (buscas st ! sid) ! k))
                (elementos (campo (case r of Inl e \<Rightarrow> JObj [(''hr'', JStr []), (''vs'', JArr [])] | Inr v \<Rightarrow> v) ''vs''))
                (atualizar sid (\<lambda>b. b\<lparr>linhasProcessadas := Suc (linhasProcessadas b)\<rparr>)
                   (atualizar sid (\<lambda>b. b\<lparr>pendentes := semIndice k (pendentes b)\<rparr>) st))) = None"
proof -
  let ?v = "case r of Inl e \<Rightarrow> JObj [(''hr'', JStr []), (''vs'', JArr [])] | Inr v \<Rightarrow> v"
  let ?vs = "campo ?v ''vs''"
  let ?linha = "fst (pendentes (buscas st ! sid) ! k)"
  let ?s0 = "atualizar sid (\<lambda>b. b\<lparr>pendentes := semIndice k (pendentes b)\<rparr>) st"
  let ?s1 = "atualizar sid (\<lambda>b. b\<lparr>linhasProcessadas := Suc (linhasProcessadas b)\<rparr>) ?s0"
  show c: "\<not> toStringLanca (snd (pendentes (buscas st ! sid) ! k))"
    using assms by (auto simp: excecaoDaEntrega_def buscarPosicoes_def)
  then have pn: "fst (posicoes_next sid ?linha ?v ?s0) = None"
    using assms by (simp add: excecaoDaEntrega_def buscarPosicoes_emite entregarPosicoes_def)
  then show nv: "\<not> nullish ?v"
    by (auto simp: posicoes_next_def Let_def)
  show "fst (paraCadaOnibus sid ?linha (elementos ?vs) ?s1) = None"
  proof (cases "truthy ?vs \<and> isArray ?vs \<and> 0 < length (elementos ?vs)")
    case False
    then have "elementos ?vs = []" by (rule sem_veiculos)
    then show ?thesis by simp
  next
    case True
    obtain x st2 where p: "paraCadaOnibus sid ?linha (elementos ?vs) ?s1 = (x, st2)"
      by (cases "paraCadaOnibus sid ?linha (elementos ?vs) ?s1")
    have "x = None"
    proof (cases x)
      case (Some e)
      then have "fst (posicoes_next sid ?linha ?v ?s0) = Some e"
        using True nv p by (simp add: posicoes_next_def Let_def)
      with pn show ?thesis by simp
    qed
    with p show ?thesis by simp
  qed
qed

text \<open>
  C4, as the code has it. When an answer settles the request that makes the count of
  processed lines equal to the number of lines returned, and no exception leaves the
  callback that handles the answer, \<^verbatim>\<open>mostrarResultadoFinal\<close> is called and reports the
  result. If no bus was counted, it reports that no bus is active and nothing else
  happens: the viewport is not fitted. If a bus was counted, it fits the viewport to
  all the markers of the list and then reports the totals.
\<close>

theorem resultado_final_ao_completar:
  assumes "sid < length (buscas st)"
    and "k < length (pendentes (buscas st ! sid))"
    and "Suc (linhasProcessadas (buscas st ! sid)) = totalLinhas (buscas st ! sid)"
    and "excecaoDaEntrega sid k r st = None"
    and "st' = passo (PosicoesChegam sid k r) st"
  shows "linhasProcessadas (buscas st' ! sid) = totalLinhas (buscas st' ! sid) \<and>
    finais (buscas st' ! sid) = Suc (finais (buscas st ! sid)) \<and>
    (totalOnibus (buscas st' ! sid) = 0 \<longrightarrow>
       efeitos st' =
         efeitos st @ [Alert (NenhumAtivo (totalLinhas (buscas st' ! sid)) (termo (buscas st' ! sid)))]) \<and>
    (0 < totalOnibus (buscas st' ! sid) \<longrightarrow>
       (\<exists>ms. marcadoresOnibus st' = marcadoresOnibus st @ ms \<and>
          efeitos st' =
            efeitos st @ map AddTo ms @
            [FitBounds (marcadoresOnibus st'),
             Alert (Encontrados (totalOnibus (buscas st' ! sid)) (totalLinhas (buscas st' ! sid))
                      (termo (buscas st' ! sid)))]))"
proof -
  note x = excecaoDaEntrega_None [OF assms(4)]
  note g = entrega_geral [OF assms(1,2) x, folded assms(5)]
  from g obtain ms where
    h: "marcadoresOnibus st' = marcadoresOnibus st @ ms"
      "length ms \<le> length (elementos (campo (case r of Inl e \<Rightarrow> JObj [(''hr'', JStr []), (''vs'', JArr [])] | Inr v \<Rightarrow> v) ''vs''))"
      "totalOnibus (buscas st' ! sid) = totalOnibus (buscas st ! sid) +
         length (elementos (campo (case r of Inl e \<Rightarrow> JObj [(''hr'', JStr []), (''vs'', JArr [])] | Inr v \<Rightarrow> v) ''vs''))"
      "linhasProcessadas (buscas st' ! sid) = Suc (linhasProcessadas (buscas st ! sid))"
      "totalLinhas (buscas st' ! sid) = totalLinhas (buscas st ! sid)"
      "termo (buscas st' ! sid) = termo (buscas st ! sid)"
      "finais (buscas st' ! sid) = finais (buscas st ! sid) +
         (if Suc (linhasProcessadas (buscas st ! sid)) = totalLinhas (buscas st ! sid) then 1 else 0)"
    and e: "efeitos st' =
       efeitos st @ map AddTo ms @
       (if Suc (linhasProcessadas (buscas st ! sid)) \<noteq> totalLinhas (buscas st ! sid) then []
        else if totalOnibus (buscas st' ! sid) = 0
        then [Alert (NenhumAtivo (totalLinhas (buscas st ! sid)) (termo (buscas st ! sid)))]
        else if leaflet st \<and> mapa st \<noteq> None \<and> marcadoresOnibus st @ ms \<noteq> []
        then [FitBounds (marcadoresOnibus st @ ms),
              Alert (Encontrados (totalOnibus (buscas st' ! sid))
                       (totalLinhas (buscas st ! sid)) (termo (buscas st ! sid)))]
        else [])"
    and q: "(excecaoDaEntrega sid k r st = None) =
       (Suc (linhasProcessadas (buscas st ! sid)) \<noteq> totalLinhas (buscas st ! sid) \<or>
        totalOnibus (buscas st' ! sid) = 0 \<or>
        leaflet st \<and> mapa st \<noteq> None \<and> marcadoresOnibus st @ ms \<noteq> [])"
    by (elim exE conjE) (rule that; assumption)
  have c: "leaflet st \<and> mapa st \<noteq> None \<and> marcadoresOnibus st @ ms \<noteq> []"
    if "0 < totalOnibus (buscas st' ! sid)"
    using q assms(3,4) that by simp
  have z: "ms = []" if "totalOnibus (buscas st' ! sid) = 0"
    using that h(2,3) by simp
  have a: "linhasProcessadas (buscas st' ! sid) = totalLinhas (buscas st' ! sid)"
    using h(4,5) assms(3) by simp
  have b: "finais (buscas st' ! sid) = Suc (finais (buscas st ! sid))"
    using h(7) assms(3) by simp
  have n: "efeitos st' =
         efeitos st @ [Alert (NenhumAtivo (totalLinhas (buscas st' ! sid)) (termo (buscas st' ! sid)))]"
    if "totalOnibus (buscas st' ! sid) = 0"
    using e z [OF that] that assms(3) h(5,6) by simp
  have f: "\<exists>ms. marcadoresOnibus st' = marcadoresOnibus st @ ms \<and>
          efeitos st' =
            efeitos st @ map AddTo ms @
            [FitBounds (marcadoresOnibus st'),
             Alert (Encontrados (totalOnibus (buscas st' ! sid)) (totalLinhas (buscas st' ! sid))
                      (termo (buscas st' ! sid)))]"
    if "0 < totalOnibus (buscas st' ! sid)"
  proof (rule exI [of _ ms], rule conjI [OF h(1)])
    show "efeitos st' =
            efeitos st @ map AddTo ms @
            [FitBounds (marcadoresOnibus st'),
             Alert (Encontrados (totalOnibus (buscas st' ! sid)) (totalLinhas (buscas st' ! sid))
                      (termo (buscas st' ! sid)))]"
      using e that c [OF that] assms(3) h(1,5,6) by simp
  qed
  show ?thesis using a b n f by blast
qed

theorem resultado_final_ao_completar_witness:
  "efeitos (passo (PosicoesChegam 0 0 (Inr (JObj [(''hr'', JStr ''10:00''),
        (''vs'', JArr [JObj [(''py'', JNum (-23)), (''px'', JNum (-46))]])])))
      (executar [Digitar ''8000'', Buscar,
         LinhasChegam 0 (Inr (JArr [JObj [(''cl'', JNum 1145)]]))] pronto)) =
   [Http (Linhas ''8000''), Http (PosicaoLinha (JNum 1145)),
    AddTo (Marcador 0 (JObj [(''py'', JNum (-23)), (''px'', JNum (-46))]) (JObj [(''cl'', JNum 1145)])),
    FitBounds [Marcador 0 (JObj [(''py'', JNum (-23)), (''px'', JNum (-46))]) (JObj [(''cl'', JNum 1145)])],
    Alert (Encontrados 1 1 ''8000'')] \<and>
   finais (buscas (passo (PosicoesChegam 0 0 (Inr (JObj [(''hr'', JStr ''10:00''),
        (''vs'', JArr [JObj [(''py'', JNum (-23)), (''px'', JNum (-46))]])])))
      (executar [Digitar ''8000'', Buscar,
         LinhasChegam 0 (Inr (JArr [JObj [(''cl'', JNum 1145)]]))] pronto)) ! 0) = 1"
proof -
  let ?as = "[Digitar ''8000'', Buscar, LinhasChegam 0 (Inr (JArr [JObj [(''cl'', JNum 1145)]]))]"
  let ?r = "Inr (JObj [(''hr'', JStr ''10:00''),
        (''vs'', JArr [JObj [(''py'', JNum (-23)), (''px'', JNum (-46))]])]) :: erro + jsval"
  let ?st = "executar ?as pronto"
  let ?st' = "passo (PosicoesChegam 0 0 ?r) ?st"
  have a: "0 < length (buscas ?st)" by code_simp
  have b: "0 < length (pendentes (buscas ?st ! 0))" by code_simp
  have c: "excecaoDaEntrega 0 0 ?r ?st = None" by code_simp
  have d: "Suc (linhasProcessadas (buscas ?st ! 0)) = totalLinhas (buscas ?st ! 0)" by code_simp
  have e: "efeitos ?st' =
   [Http (Linhas ''8000''), Http (PosicaoLinha (JNum 1145)),
    AddTo (Marcador 0 (JObj [(''py'', JNum (-23)), (''px'', JNum (-46))]) (JObj [(''cl'', JNum 1145)])),
    FitBounds [Marcador 0 (JObj [(''py'', JNum (-23)), (''px'', JNum (-46))]) (JObj [(''cl'', JNum 1145)])],
    Alert (Encontrados 1 1 ''8000'')]"
    by code_simp
  have f: "finais (buscas ?st ! 0) = 0" by code_simp
  from resultado_final_ao_completar [OF a b d c refl]
  have "finais (buscas ?st' ! 0) = Suc (finais (buscas ?st ! 0))" by blast
  with e f show ?thesis by simp
qed

text \<open>
  C4, as stated, fails: the only line of a search has no active vehicle; its request
  settles, the count of processed lines equals the number of requests dispatched, the
  summary is reported, and the viewport is not fitted.
\<close>

theorem viewport_sempre_ajustado_counterexample:
  "linhasProcessadas (buscas (executar [Digitar ''8000'', Buscar,
       LinhasChegam 0 (Inr (JArr [JObj [(''cl'', JNum 1145)]])),
       PosicoesChegam 0 0 (Inr (JObj [(''hr'', JStr ''10:00''), (''vs'', JArr [])]))] pronto) ! 0) = 1 \<and>
   filter ehPedidoPosicao (efeitos (executar [Digitar ''8000'', Buscar,
       LinhasChegam 0 (Inr (JArr [JObj [(''cl'', JNum 1145)]])),
       PosicoesChegam 0 0 (Inr (JObj [(''hr'', JStr ''10:00''), (''vs'', JArr [])]))] pronto)) =
     [Http (PosicaoLinha (JNum 1145))] \<and>
   filter ehFitBounds (efeitos (executar [Digitar ''8000'', Buscar,
       LinhasChegam 0 (Inr (JArr [JObj [(''cl'', JNum 1145)]])),
       PosicoesChegam 0 0 (Inr (JObj [(''hr'', JStr ''10:00''), (''vs'', JArr [])]))] pronto)) = [] \<and>
   last (efeitos (executar [Digitar ''8000'', Buscar,
       LinhasChegam 0 (Inr (JArr [JObj [(''cl'', JNum 1145)]])),
       PosicoesChegam 0 0 (Inr (JObj [(''hr'', JStr ''10:00''), (''vs'', JArr [])]))] pronto)) =
     Alert (NenhumAtivo 1 ''8000'')"
  by code_simp



text \<open>
  A completion that the statement above leaves out: the only vehicle of the only line has
  no coordinates, so a bus is counted and the list of markers is empty; the bounds of
  the empty group cannot be padded, the exception leaves the callback, and neither the
  fit nor the report happens.
\<close>

lemma resultado_final_sem_marcadores:
  "excecaoDaEntrega 0 0
     (Inr (JObj [(''hr'', JStr ''10:00''), (''vs'', JArr [JObj [(''p'', JNum 11433)]])]))
     (executar [Digitar ''8000'', Buscar,
        LinhasChegam 0 (Inr (JArr [JObj [(''cl'', JNum 1145)]]))] pronto) = Some LeafletError \<and>
   efeitos (executar [Digitar ''8000'', Buscar,
       LinhasChegam 0 (Inr (JArr [JObj [(''cl'', JNum 1145)]])),
       PosicoesChegam 0 0 (Inr (JObj [(''hr'', JStr ''10:00''),
          (''vs'', JArr [JObj [(''p'', JNum 11433)]])]))] pronto) =
     [Http (Linhas ''8000''), Http (PosicaoLinha (JNum 1145))]"
  by code_simp

section \<open>The bookkeeping of a search, over whole runs\<close>

lemma despachar_geral:
  "\<exists>ps. length ps \<le> length ls \<and>
     buscas (snd (despachar sid ls st)) =
       (buscas st)[sid := (buscas st ! sid)\<lparr>pendentes := pendentes (buscas st ! sid) @ ps\<rparr>]"
proof (induction ls arbitrary: st)
  case Nil
  show ?case by (rule exI [of _ "[]"]) simp
next
  case (Cons linha resto)
  show ?case
  proof (cases "codigoLinha linha")
    case (Inl x)
    then show ?thesis by (intro exI [of _ "[]"]) simp
  next
    case (Inr codigo)
    show ?thesis
    proof (cases "truthy codigo \<and> \<not> toStringLanca codigo")
      case lanca: False
      show ?thesis
      proof (cases "toStringLanca codigo")
        case True
        then show ?thesis using Inr by (intro exI [of _ "[]"]) simp
      next
        case False
        with lanca have nt: "\<not> truthy codigo" by simp
        from Cons.IH [of st] obtain ps where
        "length ps \<le> length resto"
        "buscas (snd (despachar sid resto st)) =
           (buscas st)[sid := (buscas st ! sid)\<lparr>pendentes := pendentes (buscas st ! sid) @ ps\<rparr>]"
          by blast
        then show ?thesis using Inr False nt by (intro exI [of _ ps]) simp
      qed
    next
      case True
      let ?st' = "atualizar sid (\<lambda>b. b\<lparr>pendentes := pendentes b @ [(linha, codigo)]\<rparr>)
                    (st\<lparr>efeitos := efeitos st @ [Http (PosicaoLinha codigo)]\<rparr>)"
      from Cons.IH [of ?st'] obtain ps where
        l: "length ps \<le> length resto" and
        b: "buscas (snd (despachar sid resto ?st')) =
           (buscas ?st')[sid := (buscas ?st' ! sid)\<lparr>pendentes := pendentes (buscas ?st' ! sid) @ ps\<rparr>]"
        by blast
      have e: "despachar sid (linha # resto) st = despachar sid resto ?st'"
        using Inr True by (simp add: buscarPosicoes_def)
      have "buscas (snd (despachar sid resto ?st')) =
           (buscas st)[sid := (buscas st ! sid)
              \<lparr>pendentes := pendentes (buscas st ! sid) @ (linha, codigo) # ps\<rparr>]"
      proof (cases "sid < length (buscas st)")
        case True
        then show ?thesis unfolding b by (simp add: buscas_atualizar)
      next
        case False
        then show ?thesis unfolding b by (simp add: buscas_atualizar list_update_beyond)
      qed
      then show ?thesis unfolding e using l by (intro exI [of _ "(linha, codigo) # ps"]) simp
    qed
  qed
qed

lemma processarLinhas_nova:
  "buscas (snd (processarLinhas linhas t st)) = buscas st \<or>
   (\<exists>ps. length ps \<le> length (elementos linhas) \<and>
      buscas (snd (processarLinhas linhas t st)) =
        buscas st @ [\<lparr>totalOnibus = 0, linhasProcessadas = 0,
                       totalLinhas = length (elementos linhas), termo = t,
                       pendentes = ps, finais = 0\<rparr>])"
proof (cases "truthy linhas \<and> isArray linhas \<and> length (elementos linhas) \<noteq> 0")
  case False
  then show ?thesis by (auto simp: processarLinhas_def)
next
  case True
  let ?b = "\<lparr>totalOnibus = 0, linhasProcessadas = 0, totalLinhas = length (elementos linhas),
             termo = t, pendentes = [], finais = 0\<rparr>"
  let ?st1 = "st\<lparr>buscas := buscas st @ [?b]\<rparr>"
  from despachar_geral [of "elementos linhas" "length (buscas st)" ?st1] obtain ps where
    "length ps \<le> length (elementos linhas)"
    "buscas (snd (despachar (length (buscas st)) (elementos linhas) ?st1)) =
       buscas st @ [?b\<lparr>pendentes := ps\<rparr>]"
    by auto
  then show ?thesis using True by (auto simp: processarLinhas_def)
qed

lemma posicoes_next_length:
  "sid < length (buscas st) \<Longrightarrow>
   length (buscas (snd (posicoes_next sid linha posicoes st))) = length (buscas st)"
  using posicoes_next_resumo [of sid st linha posicoes] by auto

lemma posicoes_next_outras:
  "sid < length (buscas st) \<Longrightarrow> j \<noteq> sid \<Longrightarrow>
   buscas (snd (posicoes_next sid linha posicoes st)) ! j = buscas st ! j"
  using posicoes_next_resumo [of sid st linha posicoes] by auto

lemma passo_length: "length (buscas st) \<le> length (buscas (passo a st))"
proof (cases a)
  case (Digitar s)
  then show ?thesis by simp
next
  case Buscar
  then show ?thesis by (simp add: buscarLinhas_componente_def Let_def limparMarcadores_fixos)
next
  case Remover
  then show ?thesis by (simp add: removerMarcadores_def limparMarcadores_fixos)
next
  case (LinhasChegam k r)
  show ?thesis
  proof (cases "k < length (pendLinhas st)")
    case True
    let ?st0 = "st\<lparr>pendLinhas := semIndice k (pendLinhas st), carregando := False\<rparr>"
    have "length (buscas st) \<le> length (buscas (snd (processarLinhas v t ?st0)))" for v t
      using processarLinhas_buscas(1) [of ?st0 v t] by simp
    then show ?thesis using True LinhasChegam by (simp only: passo_LinhasChegam)
  next
    case False
    then show ?thesis using LinhasChegam by simp
  qed
next
  case (PosicoesChegam s k r)
  show ?thesis
  proof (cases "s < length (buscas st) \<and> k < length (pendentes (buscas st ! s)) \<and>
        \<not> toStringLanca (snd (pendentes (buscas st ! s) ! k))")
    case True
    let ?st0 = "atualizar s (\<lambda>b. b\<lparr>pendentes := semIndice k (pendentes b)\<rparr>) st"
    have "s < length (buscas ?st0)" using True by (simp add: atualizar_campos)
    then have "length (buscas (snd (posicoes_next s l v ?st0))) = length (buscas st)" for l v
      by (simp add: posicoes_next_length atualizar_campos)
    then show ?thesis using True PosicoesChegam by (simp only: passo_PosicoesChegam not_False_eq_True)
  next
    case False
    show ?thesis unfolding PosicoesChegam passo_PosicoesChegam_fora [OF False] by simp
  qed
qed

text \<open>An event that is not an answer for the call \<open>sid\<close> leaves its variables alone.\<close>

lemma passo_outras:
  assumes s: "sid < length (buscas st)" and n: "\<And>k r. a \<noteq> PosicoesChegam sid k r"
  shows "buscas (passo a st) ! sid = buscas st ! sid"
proof (cases a)
  case (Digitar x)
  then show ?thesis by simp
next
  case Buscar
  then show ?thesis by (simp add: buscarLinhas_componente_def Let_def limparMarcadores_fixos)
next
  case Remover
  then show ?thesis by (simp add: removerMarcadores_def limparMarcadores_fixos)
next
  case (LinhasChegam k r)
  show ?thesis
  proof (cases "k < length (pendLinhas st)")
    case True
    let ?st0 = "st\<lparr>pendLinhas := semIndice k (pendLinhas st), carregando := False\<rparr>"
    have "buscas (snd (processarLinhas v t ?st0)) ! sid = buscas st ! sid" for v t
      using processarLinhas_buscas(2) [of sid ?st0 v t] s by simp
    then show ?thesis using True LinhasChegam by (simp only: passo_LinhasChegam)
  next
    case False
    then show ?thesis using LinhasChegam by simp
  qed
next
  case (PosicoesChegam s' k r)
  then have ne: "sid \<noteq> s'" using n by auto
  show ?thesis
  proof (cases "s' < length (buscas st) \<and> k < length (pendentes (buscas st ! s')) \<and>
        \<not> toStringLanca (snd (pendentes (buscas st ! s') ! k))")
    case True
    let ?st0 = "atualizar s' (\<lambda>b. b\<lparr>pendentes := semIndice k (pendentes b)\<rparr>) st"
    have l0: "s' < length (buscas ?st0)" using True by (simp add: atualizar_campos)
    have "buscas (snd (posicoes_next s' l v ?st0)) ! sid = buscas st ! sid" for l v
      using posicoes_next_outras [OF l0 ne, of l v] ne by (simp add: atualizar_nth)
    then show ?thesis using True PosicoesChegam by (simp only: passo_PosicoesChegam not_False_eq_True)
  next
    case False
    show ?thesis unfolding PosicoesChegam passo_PosicoesChegam_fora [OF False] by simp
  qed
qed

text \<open>The payload that reaches the callback for an upstream answer.\<close>

lemma entregue_bemFormada:
  "benigna sid (PosicoesChegam sid k r) \<Longrightarrow>
   bemFormada (case r of Inl e \<Rightarrow> JObj [(''hr'', JStr []), (''vs'', JArr [])] | Inr v \<Rightarrow> v)"
  by (cases r) (simp_all add: bemFormada_def)

text \<open>
  While the requests in flight of the call \<open>sid\<close> are for lines, with codes, on which
  nothing throws, an event that is no answer on which the callback throws keeps its
  bookkeeping in step and its requests such requests, and leaves its number of lines
  alone.
\<close>

lemma passo_emDia:
  assumes s: "sid < length (buscas st)" and d: "emDia (buscas st ! sid)"
    and g: "seguras (buscas st ! sid)" and b: "benigna sid a"
  shows "emDia (buscas (passo a st) ! sid) \<and> seguras (buscas (passo a st) ! sid) \<and>
         totalLinhas (buscas (passo a st) ! sid) = totalLinhas (buscas st ! sid)"
proof (cases "\<exists>k r. a = PosicoesChegam sid k r \<and> k < length (pendentes (buscas st ! sid))")
  case False
  have "buscas (passo a st) ! sid = buscas st ! sid"
  proof (cases "\<exists>k r. a = PosicoesChegam sid k r")
    case True
    then obtain k r where a: "a = PosicoesChegam sid k r" by blast
    with False have f: "\<not> (sid < length (buscas st) \<and> k < length (pendentes (buscas st ! sid)) \<and>
        \<not> toStringLanca (snd (pendentes (buscas st ! sid) ! k)))" by simp
    show ?thesis unfolding a passo_PosicoesChegam_fora [OF f] ..
  next
    case False
    then show ?thesis using s by (intro passo_outras) auto
  qed
  then show ?thesis using d g by simp
next
  case True
  then obtain k r where a: "a = PosicoesChegam sid k r"
    and k: "k < length (pendentes (buscas st ! sid))" by blast
  let ?b = "buscas st ! sid"
  let ?v = "case r of Inl e \<Rightarrow> JObj [(''hr'', JStr []), (''vs'', JArr [])] | Inr v \<Rightarrow> v"
  let ?s1 = "atualizar sid (\<lambda>b. b\<lparr>linhasProcessadas := Suc (linhasProcessadas b)\<rparr>)
               (atualizar sid (\<lambda>b. b\<lparr>pendentes := semIndice k (pendentes b)\<rparr>) st)"
  from g k have l: "linhaSegura (fst (pendentes ?b ! k))"
    and c: "\<not> toStringLanca (snd (pendentes ?b ! k))"
    by (simp_all add: seguras_def list_all_length)
  have bf: "bemFormada ?v" using b unfolding a by (rule entregue_bemFormada)
  then have nv: "\<not> nullish ?v" and vs: "list_all onibusSeguro (elementos (campo ?v ''vs''))"
    by (simp_all add: bemFormada_def)
  have nl: "fst (paraCadaOnibus sid (fst (pendentes ?b ! k)) (elementos (campo ?v ''vs'')) ?s1) = None"
    using vs l by (rule paraCadaOnibus_nao_lanca)
  have e: "emDia (buscas (passo a st) ! sid)"
    unfolding a using s k c nv nl d by (rule emDia_entrega)
  from entrega_geral [OF s k c nv nl] have
    p: "pendentes (buscas (passo a st) ! sid) = semIndice k (pendentes ?b)"
    and t: "totalLinhas (buscas (passo a st) ! sid) = totalLinhas ?b"
    unfolding a by blast+
  have "seguras (buscas (passo a st) ! sid)"
    using g semIndice_set [of k "pendentes ?b"] unfolding seguras_def p
    by (auto simp: list_all_iff)
  with e t show ?thesis by simp
qed

lemma executar_emDia:
  "sid < length (buscas st) \<Longrightarrow> emDia (buscas st ! sid) \<Longrightarrow> seguras (buscas st ! sid) \<Longrightarrow>
   list_all (benigna sid) as \<Longrightarrow>
   emDia (buscas (executar as st) ! sid) \<and>
   totalLinhas (buscas (executar as st) ! sid) = totalLinhas (buscas st ! sid)"
proof (induction as arbitrary: st)
  case Nil
  then show ?case by (simp add: executar_Nil)
next
  case (Cons a as)
  from Cons.prems have b: "benigna sid a" and r: "list_all (benigna sid) as" by simp_all
  have l: "sid < length (buscas (passo a st))"
    using Cons.prems(1) passo_length [of st a] by simp
  note p = passo_emDia [OF Cons.prems(1,2,3) b]
  from p have e: "emDia (buscas (passo a st) ! sid)"
    and g: "seguras (buscas (passo a st) ! sid)"
    and t: "totalLinhas (buscas (passo a st) ! sid) = totalLinhas (buscas st ! sid)"
    by simp_all
  show ?case using Cons.IH [OF l e g r] t by (simp add: executar_Cons)
qed

text \<open>
  A search whose lines all have a code, and hold nothing that has no string where the
  code converts one, followed by any events among which the answers to its requests are
  failures or payloads on which the callback does not throw: the lines counted and the
  requests in flight add up to the number of lines, and the final result is shown
  exactly once, at the moment the last request settles.
\<close>

lemma busca_completa_uma_vez:
  assumes "k < length (pendLinhas st)" and "ls \<noteq> []"
    and "list_all (\<lambda>linha. truthy (codigoDe linha)) ls"
    and "list_all (\<lambda>linha. linhaSegura linha \<and> \<not> toStringLanca (codigoDe linha)) ls"
    and "list_all (benigna (length (buscas st))) as"
    and "b = buscas (executar as (passo (LinhasChegam k (Inr (JArr ls))) st)) ! length (buscas st)"
  shows "linhasProcessadas b + length (pendentes b) = length ls \<and>
         totalLinhas b = length ls \<and>
         finais b = (if pendentes b = [] then 1 else 0)"
proof -
  let ?sid = "length (buscas st)"
  let ?st0 = "st\<lparr>pendLinhas := semIndice k (pendLinhas st), carregando := False\<rparr>"
  let ?b0 = "\<lparr>totalOnibus = 0, linhasProcessadas = 0, totalLinhas = length ls,
              termo = pendLinhas st ! k, pendentes = [], finais = 0\<rparr>"
  let ?st1 = "?st0\<lparr>buscas := buscas ?st0 @ [?b0]\<rparr>"
  let ?s = "passo (LinhasChegam k (Inr (JArr ls))) st"
  have nn: "list_all (\<lambda>linha. \<not> nullish linha \<and> \<not> toStringLanca (codigoDe linha)) ls"
    using assms(4) by (auto simp: list_all_iff linhaSegura_def)
  have cc: "comCodigo ls = ls" using assms(3) by (simp add: comCodigo_def list_all_iff)
  have p: "?s = snd (despachar ?sid ls ?st1)"
    using assms(1,2) by (simp only: passo_LinhasChegam) (simp add: processarLinhas_def)
  have l: "?sid < length (buscas ?st1)" by simp
  have bs: "buscas ?s = buscas st @ [?b0\<lparr>pendentes := map (\<lambda>linha. (linha, codigoDe linha)) ls\<rparr>]"
    unfolding p using despachar_sem_nulos [OF nn l] cc by simp
  have len: "?sid < length (buscas ?s)" unfolding bs by simp
  have d: "emDia (buscas ?s ! ?sid)"
    unfolding bs using assms(2) nn by (simp add: emDia_def list_all_iff)
  have g: "seguras (buscas ?s ! ?sid)"
    unfolding bs using assms(4) by (simp add: seguras_def list_all_iff)
  have t: "totalLinhas (buscas ?s ! ?sid) = length ls" unfolding bs by simp
  from executar_emDia [OF len d g assms(5)] have "emDia b" and "totalLinhas b = length ls"
    unfolding assms(6) using t by simp_all
  then show ?thesis by (auto simp: emDia_def)
qed

lemma umaVezNoFim_entrega:
  assumes j: "umaVezNoFim b" and k: "k < length (pendentes b)" and f: "f \<le> 1"
    and u: "f = 1 \<longrightarrow> Suc (linhasProcessadas b) = totalLinhas b"
  shows "umaVezNoFim (b\<lparr>pendentes := semIndice k (pendentes b),
            totalOnibus := totalOnibus b + n,
            linhasProcessadas := Suc (linhasProcessadas b),
            finais := finais b + f\<rparr>)"
proof -
  have l: "Suc (length (semIndice k (pendentes b))) = length (pendentes b)"
    using k by (rule semIndice_length)
  have z: "finais b = 0" using j k by (auto simp: umaVezNoFim_def)
  have e: "semIndice k (pendentes b) = []" if "Suc (linhasProcessadas b) = totalLinhas b"
  proof -
    have "linhasProcessadas b + length (pendentes b) \<le> totalLinhas b"
      using j by (simp add: umaVezNoFim_def)
    with that l have "length (semIndice k (pendentes b)) = 0" by linarith
    then show ?thesis by simp
  qed
  show ?thesis using j l z f u k e by (auto simp: umaVezNoFim_def)
qed

lemma passo_umaVezNoFim:
  assumes "list_all umaVezNoFim (buscas st)"
  shows "list_all umaVezNoFim (buscas (passo a st))"
proof (cases a)
  case (Digitar s)
  then show ?thesis using assms by simp
next
  case Buscar
  then show ?thesis using assms
    by (simp add: buscarLinhas_componente_def Let_def limparMarcadores_fixos)
next
  case Remover
  then show ?thesis using assms by (simp add: removerMarcadores_def limparMarcadores_fixos)
next
  case (LinhasChegam k r)
  show ?thesis
  proof (cases "k < length (pendLinhas st)")
    case True
    let ?st0 = "st\<lparr>pendLinhas := semIndice k (pendLinhas st), carregando := False\<rparr>"
    have "list_all umaVezNoFim (buscas (snd (processarLinhas v t ?st0)))" for v t
      using processarLinhas_nova [of v t ?st0] assms by (auto simp: umaVezNoFim_def)
    then show ?thesis using True LinhasChegam by (simp only: passo_LinhasChegam)
  next
    case False
    then show ?thesis using LinhasChegam assms by simp
  qed
next
  case (PosicoesChegam s k r)
  show ?thesis
  proof (cases "s < length (buscas st) \<and> k < length (pendentes (buscas st ! s)) \<and>
        \<not> toStringLanca (snd (pendentes (buscas st ! s) ! k))")
    case True
    let ?b = "buscas st ! s"
    let ?st0 = "atualizar s (\<lambda>b. b\<lparr>pendentes := semIndice k (pendentes b)\<rparr>) st"
    have l0: "s < length (buscas ?st0)" using True by (simp add: atualizar_campos)
    have b0: "buscas ?st0 ! s = ?b\<lparr>pendentes := semIndice k (pendentes ?b)\<rparr>"
      using True by (simp add: atualizar_nth)
    have j: "umaVezNoFim ?b" using assms True by (simp add: list_all_length)
    have "list_all umaVezNoFim (buscas (snd (posicoes_next s l v ?st0)))" for l v
    proof -
      from posicoes_next_resumo [OF l0, of l v] obtain n f where
        f: "f \<le> 1"
        "f = 1 \<longrightarrow> Suc (linhasProcessadas (buscas ?st0 ! s)) = totalLinhas (buscas ?st0 ! s)"
        and b: "buscas (snd (posicoes_next s l v ?st0)) =
           (buscas ?st0)[s := (buscas ?st0 ! s)
              \<lparr>totalOnibus := totalOnibus (buscas ?st0 ! s) + n,
               linhasProcessadas := Suc (linhasProcessadas (buscas ?st0 ! s)),
               finais := finais (buscas ?st0 ! s) + f\<rparr>]"
        by blast
      have u: "umaVezNoFim (?b\<lparr>pendentes := semIndice k (pendentes ?b),
            totalOnibus := totalOnibus ?b + n,
            linhasProcessadas := Suc (linhasProcessadas ?b),
            finais := finais ?b + f\<rparr>)"
        using j True f unfolding b0 by (intro umaVezNoFim_entrega) simp_all
      have "set (buscas (snd (posicoes_next s l v ?st0))) \<subseteq>
          insert (?b\<lparr>pendentes := semIndice k (pendentes ?b),
            totalOnibus := totalOnibus ?b + n,
            linhasProcessadas := Suc (linhasProcessadas ?b),
            finais := finais ?b + f\<rparr>) (set (buscas st))"
        unfolding b b0
        using set_update_subset_insert [of "(buscas st)[s := ?b\<lparr>pendentes := semIndice k (pendentes ?b)\<rparr>]" s]
          set_update_subset_insert [of "buscas st" s]
        by (simp add: buscas_atualizar)
      then show ?thesis using u assms by (auto simp: list_all_iff)
    qed
    then show ?thesis using True PosicoesChegam by (simp only: passo_PosicoesChegam not_False_eq_True)
  next
    case False
    show ?thesis unfolding PosicoesChegam passo_PosicoesChegam_fora [OF False] using assms by simp
  qed
qed

text \<open>
  In every state the component reaches, whatever the events and the answers, each
  search has shown its final result at most once, and only with all its lines counted
  and none of its requests in flight.
\<close>

lemma resultado_final_no_maximo_uma_vez:
  "list_all umaVezNoFim (buscas (executar as pronto))"
proof -
  have "list_all umaVezNoFim (buscas (executar as st))" if "list_all umaVezNoFim (buscas st)" for st
    using that
    by (induction as arbitrary: st) (simp_all add: executar_Nil executar_Cons passo_umaVezNoFim)
  moreover have "list_all umaVezNoFim (buscas pronto)"
    by (simp add: pronto_def criarMapa_def ngOnInit_def inicial_def)
  ultimately show ?thesis by blast
qed

end
